theory Spec2Isabelle
  imports Main "HOL-Library.AList"
begin

section \<open>JavaScript values\<close>

text \<open>
  The analyzer core of providence-analytics (\<^verbatim>\<open>Analyzer.js\<close>) works on plain
  JavaScript data: configuration objects, project metadata, query results read back from
  JSON. They are modelled by one datatype of values. An object is the list of its own
  properties in enumeration order; \<^verbatim>\<open>undefined\<close> is a value of its own, since
  a missing property reads as \<^verbatim>\<open>undefined\<close>. The code performs no arithmetic
  on numbers: only their truthiness is used.
\<close>

datatype jsval =
    JUndefined
  | JNull
  | JBool bool
  | JNum int
  | JStr string
  | JArr "jsval list"
  | JObj "(string \<times> jsval) list"

text \<open>What the code throws. \<open>TypeError\<close> is the engine's own error (reading a
  property of \<^verbatim>\<open>undefined\<close>, a non-string path argument); \<open>Failure\<close> is an
  error raised by a collaborator (file system, JSON parser, services).\<close>

datatype error = TypeError | Failure string

type_synonym props = "(string \<times> jsval) list"

fun truthy :: "jsval \<Rightarrow> bool" where
  "truthy JUndefined = False"
| "truthy JNull = False"
| "truthy (JBool b) = b"
| "truthy (JNum n) = (n \<noteq> 0)"
| "truthy (JStr s) = (s \<noteq> [])"
| "truthy (JArr xs) = True"
| "truthy (JObj kvs) = True"

text \<open>\<^verbatim>\<open>obj[k]\<close> on a property list: the value, or \<^verbatim>\<open>undefined\<close>.\<close>

definition obj_get :: "props \<Rightarrow> string \<Rightarrow> jsval" where
  "obj_get kvs k = (case map_of kvs k of None \<Rightarrow> JUndefined | Some v \<Rightarrow> v)"

text \<open>Reading a property without throwing: \<^verbatim>\<open>undefined\<close> when the value is
  not an object.\<close>

definition field :: "jsval \<Rightarrow> string \<Rightarrow> jsval" where
  "field v k = (case v of JObj kvs \<Rightarrow> obj_get kvs k | _ \<Rightarrow> JUndefined)"

text \<open>
  \<^verbatim>\<open>v.k\<close> for the property names this code reads (\<^verbatim>\<open>queryOutput\<close>,
  \<^verbatim>\<open>meta\<close>, \<^verbatim>\<open>analyzerMeta\<close>, \<^verbatim>\<open>targetProject\<close>, \<^verbatim>\<open>project\<close>,
  \<^verbatim>\<open>name\<close>, \<^verbatim>\<open>version\<close>, \<^verbatim>\<open>dependencies\<close>, \<^verbatim>\<open>devDependencies\<close>,
  \<^verbatim>\<open>length\<close>): it throws on \<^verbatim>\<open>undefined\<close> and \<^verbatim>\<open>null\<close>; arrays and
  strings have a \<^verbatim>\<open>length\<close>; every other read of a primitive gives
  \<^verbatim>\<open>undefined\<close>.
\<close>

fun get_prop :: "jsval \<Rightarrow> string \<Rightarrow> error + jsval" where
  "get_prop JUndefined k = Inl TypeError"
| "get_prop JNull k = Inl TypeError"
| "get_prop (JObj kvs) k = Inr (obj_get kvs k)"
| "get_prop (JArr xs) k = Inr (if k = ''length'' then JNum (int (length xs)) else JUndefined)"
| "get_prop (JStr s) k = Inr (if k = ''length'' then JNum (int (length s)) else JUndefined)"
| "get_prop (JBool b) k = Inr JUndefined"
| "get_prop (JNum n) k = Inr JUndefined"

text \<open>\<^verbatim>\<open>delete v.k\<close> on a truthy value: removes the property of an object, does
  nothing to an array or a primitive.\<close>

fun delete_prop :: "jsval \<Rightarrow> string \<Rightarrow> jsval" where
  "delete_prop (JObj kvs) k = JObj (AList.delete k kvs)"
| "delete_prop v k = v"

text \<open>
  \<^verbatim>\<open>v.k = x\<close> inside a class body (strict mode): it throws on
  \<^verbatim>\<open>undefined\<close>, \<^verbatim>\<open>null\<close> and on a primitive. A named property put on an
  array is not an element of the array and is not representable here: the array is
  returned as it is.
\<close>

fun set_prop :: "jsval \<Rightarrow> string \<Rightarrow> jsval \<Rightarrow> error + jsval" where
  "set_prop (JObj kvs) k x = Inr (JObj (AList.update k x kvs))"
| "set_prop (JArr xs) k x = Inr (JArr xs)"
| "set_prop v k x = Inl TypeError"

text \<open>
  What an object holds after a change \<open>f\<close> made in place to the value of its
  property \<open>k\<close>, a change that everyone who holds the object sees
  (\<open>AList.map_entry k f\<close> on the list of its properties). Nothing changes in an
  object without that property, nor in a value that is not an object.
\<close>

definition modify :: "string \<Rightarrow> (jsval \<Rightarrow> jsval) \<Rightarrow> jsval \<Rightarrow> jsval" where
  "modify k f v = (case v of JObj kvs \<Rightarrow> JObj (AList.map_entry k f kvs) | _ \<Rightarrow> v)"

fun string_of_nat :: "nat \<Rightarrow> string" where
  "string_of_nat n =
     (if n < 10 then [char_of (48 + n)]
      else string_of_nat (n div 10) @ [char_of (48 + n mod 10)])"

text \<open>\<^verbatim>\<open>Object.entries(v)\<close> for a value that is neither \<^verbatim>\<open>undefined\<close> nor
  \<^verbatim>\<open>null\<close>: the properties of an object, the indexed elements of an array, the
  indexed characters of a string, nothing for a number or a boolean.\<close>

fun object_entries :: "jsval \<Rightarrow> props" where
  "object_entries (JObj kvs) = kvs"
| "object_entries (JArr xs) = map (\<lambda>i. (string_of_nat i, xs ! i)) [0..<length xs]"
| "object_entries (JStr s) = map (\<lambda>i. (string_of_nat i, JStr [s ! i])) [0..<length s]"
| "object_entries v = []"

section \<open>Collaborators\<close>

text \<open>
  The functions the analyzer calls and that are not part of \<^verbatim>\<open>Analyzer.js\<close>:
  Node's \<^verbatim>\<open>process\<close>, \<^verbatim>\<open>path\<close> and \<^verbatim>\<open>fs\<close>, \<^verbatim>\<open>JSON.parse\<close>, the
  \<^verbatim>\<open>semver\<close> package, and the services and utilities of the package
  (\<^verbatim>\<open>InputDataService\<close>, \<^verbatim>\<open>ReportService.createIdentifier\<close>,
  \<^verbatim>\<open>QueryService\<close>, \<^verbatim>\<open>toPosixPath\<close>, \<^verbatim>\<open>getFilePathRelativeFromRoot\<close>).
  They are parameters of the model. A function that may throw returns \<open>error + _\<close>.
  \<^verbatim>\<open>semver.satisfies(version, range)\<close> is one of them: it answers
  \<^verbatim>\<open>false\<close> for a version or a range that it cannot parse, and it throws a
  \<^verbatim>\<open>TypeError\<close> for a truthy version that is not a string.
\<close>

record ast_entry =
  entry_file :: string
  entry_ast :: jsval
  entry_code :: jsval

record project_data =
  project_path :: string
  project_entries :: "ast_entry list"

record env =
  platform :: string
  toPosixPath :: "string \<Rightarrow> string"
  getFilePathRelativeFromRoot :: "string \<Rightarrow> string \<Rightarrow> string"
  path_resolve :: "string \<Rightarrow> string \<Rightarrow> string"
  readFileSync :: "string \<Rightarrow> error + string"
  JSON_parse :: "string \<Rightarrow> error + jsval"
  semver_satisfies :: "jsval \<Rightarrow> jsval \<Rightarrow> error + bool"
  getProjectMeta :: "jsval \<Rightarrow> error + jsval"
  createIdentifier :: "jsval \<Rightarrow> string"
  createDataObject :: "jsval list \<Rightarrow> jsval \<Rightarrow> error + jsval"
  addAstToProjectsData :: "jsval \<Rightarrow> string \<Rightarrow> error + project_data list"

section \<open>Compatibility check\<close>

text \<open>\<^verbatim>\<open>pathLib.resolve(p, 'package.json')\<close> throws a \<^verbatim>\<open>TypeError\<close> when
  \<^verbatim>\<open>p\<close> is not a string; the manifest is then read and parsed.\<close>

definition readPackageJson :: "env \<Rightarrow> jsval \<Rightarrow> error + jsval" where
  "readPackageJson E p =
     (case p of
        JStr dir \<Rightarrow>
          (case readFileSync E (path_resolve E dir ''package.json'') of
             Inl e \<Rightarrow> Inl e
           | Inr text \<Rightarrow> JSON_parse E text)
      | _ \<Rightarrow> Inl TypeError)"

datatype compatibility = Compatible | Incompatible string

text \<open>\<^verbatim>\<open>x || {}\<close>\<close>

definition or_empty :: "jsval \<Rightarrow> jsval" where
  "or_empty x = (if truthy x then x else JObj [])"

text \<open>
  \<^verbatim>\<open>checkForMatchCompatibility(referencePath, targetPath)\<close>. The result objects
  \<^verbatim>\<open>{compatible: true}\<close> and \<^verbatim>\<open>{compatible: false, reason}\<close> are the two
  constructors of \<open>compatibility\<close>. The callback of \<^verbatim>\<open>find\<close> reads
  \<^verbatim>\<open>referencePkg.name\<close> only when there is an entry to test. Nothing catches
  what \<^verbatim>\<open>semver.satisfies\<close> throws.
\<close>

definition checkForMatchCompatibility :: "env \<Rightarrow> jsval \<Rightarrow> jsval \<Rightarrow> error + compatibility" where
  "checkForMatchCompatibility E referencePath targetPath =
     (case readPackageJson E referencePath of Inl e \<Rightarrow> Inl e | Inr referencePkg \<Rightarrow>
     (case readPackageJson E targetPath of Inl e \<Rightarrow> Inl e | Inr targetPkg \<Rightarrow>
     (case get_prop targetPkg ''devDependencies'' of Inl e \<Rightarrow> Inl e | Inr devDeps \<Rightarrow>
     (case get_prop targetPkg ''dependencies'' of Inl e \<Rightarrow> Inl e | Inr deps \<Rightarrow>
      (let allTargetDeps = object_entries (or_empty devDeps) @ object_entries (or_empty deps) in
       if allTargetDeps = [] then Inr (Incompatible ''no-dependency'')
       else
        (case get_prop referencePkg ''name'' of Inl e \<Rightarrow> Inl e | Inr name \<Rightarrow>
        (case find (\<lambda>(n, r). name = JStr n) allTargetDeps of
           None \<Rightarrow> Inr (Incompatible ''no-dependency'')
         | Some importEntry \<Rightarrow>
            (case get_prop referencePkg ''version'' of Inl e \<Rightarrow> Inl e | Inr version \<Rightarrow>
            (case semver_satisfies E version (snd importEntry) of Inl e \<Rightarrow> Inl e
             | Inr satisfied \<Rightarrow>
                if \<not> satisfied
                then Inr (Incompatible ''no-matched-version'')
                else Inr Compatible)))))))))"

section \<open>Analyzer state\<close>

text \<open>
  What the services log. The text of a message is not modelled, only which call was
  made and with which data: \<open>DebugStarted name method\<close> is
  \<^verbatim>\<open>LogService.debug(`Analyzer "${name}": started ${method} method`)\<close>.
\<close>

datatype log_entry =
    DebugStarted string string
  | DebugFile string
  | InfoSkipping string jsval string jsval
  | InfoStarting string jsval
  | SuccessCached jsval
  | SuccessFinished string jsval

text \<open>
  The fields of an \<^verbatim>\<open>Analyzer\<close> instance, with the two pieces of state of the
  services it calls: the entries of the Cache Store and the log. The static getter
  \<^verbatim>\<open>analyzerName\<close> and the getter \<^verbatim>\<open>requiredAst\<close> are fields, so that a
  subclass may have its own; the class itself has \<^verbatim>\<open>''\<close> and \<^verbatim>\<open>'babel'\<close>.
  Objects are modelled by value. Two references to one object are followed where the
  code writes through one and what is written can be read through the other: the project
  metadata, which the instance and the result share with a provided result of the
  configuration, and the configuration object of the caller, whose properties hold the
  same objects as the local copy \<^verbatim>\<open>cfg\<close> that \<^verbatim>\<open>execute\<close> makes of it.
  \<open>targetMetaShared\<close> records that \<^verbatim>\<open>this.targetProjectMeta\<close> is the very
  object \<^verbatim>\<open>cfg.targetProjectResult.analyzerMeta.targetProject\<close> of the
  configuration of the call in progress (line 331), and not an object of its own from
  \<^verbatim>\<open>InputDataService.getProjectMeta\<close> (line 329); \<open>referenceMetaShared\<close> records
  the same of \<^verbatim>\<open>this.referenceProjectMeta\<close> and
  \<^verbatim>\<open>cfg.referenceProjectResult\<close> (line 337). \<open>passedConfig\<close> is the object that
  the caller has passed to the call of \<^verbatim>\<open>execute\<close> in progress, or to the last
  one, as the call has left it: a caller who passes the same object again passes this
  value. A reference metadata that stays in the instance from an earlier call belongs to
  the objects of that call, which are not followed further.
\<close>

record state =
  analyzerName :: string
  requiredAst :: string
  targetProjectMeta :: jsval
  targetMetaShared :: bool
  referenceProjectMeta :: jsval
  referenceMetaShared :: bool
  passedConfig :: props
  identifier' :: jsval
  targetData :: jsval
  referenceData :: jsval
  cacheStore :: "string \<times> jsval \<Rightarrow> jsval option"
  logged :: "log_entry list"

definition add_log :: "log_entry \<Rightarrow> state \<Rightarrow> state" where
  "add_log l st = st\<lparr>logged := logged st @ [l]\<rparr>"

section \<open>Result normalisation\<close>

text \<open>
  \<^verbatim>\<open>posixify(data)\<close> rewrites in place and returns nothing; the model returns the
  rewritten value. A falsy value and a truthy primitive are left alone; the elements of
  an array are visited; in an object, a property holding an array or an object
  (\<^verbatim>\<open>typeof null\<close> is \<^verbatim>\<open>'object'\<close> too, and the visit of \<^verbatim>\<open>null\<close> returns
  at once) is visited, and a string under the key \<^verbatim>\<open>file\<close> is replaced.
\<close>

fun posixify :: "(string \<Rightarrow> string) \<Rightarrow> jsval \<Rightarrow> jsval" where
  "posixify tpp (JArr xs) = JArr (map (posixify tpp) xs)"
| "posixify tpp (JObj kvs) =
     JObj (map (\<lambda>(k, v).
        (k, case v of
              JArr xs \<Rightarrow> posixify tpp v
            | JObj ps \<Rightarrow> posixify tpp v
            | JStr s \<Rightarrow> if k = ''file'' then JStr (tpp s) else v
            | _ \<Rightarrow> v)) kvs)"
| "posixify tpp v = v"

fun map_err :: "('a \<Rightarrow> error + 'b) \<Rightarrow> 'a list \<Rightarrow> error + 'b list" where
  "map_err f [] = Inr []"
| "map_err f (x # xs) =
     (case f x of Inl e \<Rightarrow> Inl e
      | Inr y \<Rightarrow> (case map_err f xs of Inl e \<Rightarrow> Inl e | Inr ys \<Rightarrow> Inr (y # ys)))"

text \<open>The callback of \<^verbatim>\<open>queryOutput.forEach\<close>:
  \<^verbatim>\<open>if (projectOutput.project) { delete projectOutput.project.path; }\<close>.
  Only an object can hold a truthy \<^verbatim>\<open>project\<close>.\<close>

definition stripProjectPath :: "jsval \<Rightarrow> error + jsval" where
  "stripProjectPath projectOutput =
     (case get_prop projectOutput ''project'' of Inl e \<Rightarrow> Inl e
      | Inr project \<Rightarrow>
          if truthy project
          then (case projectOutput of
                  JObj kvs \<Rightarrow> Inr (JObj (AList.update ''project'' (delete_prop project ''path'') kvs))
                | _ \<Rightarrow> Inr projectOutput)
          else Inr projectOutput)"

text \<open>Lines 223 to 232 of \<^verbatim>\<open>ensureAnalyzerResultFormat\<close>: what is deleted from
  the configuration.\<close>

definition cleanConfiguration :: "props \<Rightarrow> props" where
  "cleanConfiguration configuration =
     (let conf = AList.delete ''targetProjectPath''
                   (AList.delete ''referenceProjectPath'' configuration)
      in if truthy (obj_get conf ''referenceProjectResult'')
         then AList.delete ''referenceProjectResult'' conf
         else if truthy (obj_get conf ''targetProjectResult'')
         then AList.delete ''targetProjectResult'' conf
         else conf)"

text \<open>Lines 234 to 240: the loop over a \<^verbatim>\<open>queryOutput\<close> that is an array.\<close>

definition stripProjectPaths :: "jsval \<Rightarrow> error + jsval" where
  "stripProjectPaths queryOutput =
     (case queryOutput of
        JArr outs \<Rightarrow> (case map_err stripProjectPath outs of
                        Inl e \<Rightarrow> Inl e | Inr outs' \<Rightarrow> Inr (JArr outs'))
      | _ \<Rightarrow> Inr queryOutput)"

text \<open>Lines 198 to 204: \<^verbatim>\<open>delete m.path\<close> on a truthy metadata object.\<close>

definition withoutPath :: "jsval \<Rightarrow> jsval" where
  "withoutPath m = (if truthy m then delete_prop m ''path'' else m)"

text \<open>Line 200 seen from the configuration: when the target metadata is the object
  inside the provided target result, \<^verbatim>\<open>delete optional.targetProject.path\<close>
  deletes \<^verbatim>\<open>configuration.targetProjectResult.analyzerMeta.targetProject.path\<close>.\<close>

definition withoutSharedPath :: "props \<Rightarrow> props" where
  "withoutSharedPath configuration =
     AList.map_entry ''targetProjectResult''
       (modify ''analyzerMeta'' (modify ''targetProject'' (\<lambda>t. delete_prop t ''path'')))
       configuration"

text \<open>
  What a call of \<^verbatim>\<open>ensureAnalyzerResultFormat\<close> leaves in a provided result
  \<open>r\<close> of the caller whose \<^verbatim>\<open>targetProject\<close> is a metadata object of the
  instance. The metadata is inside \<^verbatim>\<open>r.analyzerMeta\<close>, or inside
  \<^verbatim>\<open>r.meta.analyzerMeta\<close> when \<^verbatim>\<open>__unwindProvidedResults\<close> has put a new
  object \<^verbatim>\<open>{queryOutput, analyzerMeta}\<close> in the place of \<open>r\<close> in
  \<^verbatim>\<open>cfg\<close>. It loses its \<^verbatim>\<open>path\<close>, and \<open>P\<close>, which is
  \<^verbatim>\<open>posixify\<close> on \<^verbatim>\<open>win32\<close> and nothing elsewhere, rewrites it. When the
  result is still in the configuration that \<^verbatim>\<open>posixify\<close> visits, \<open>visited\<close>,
  the whole of it is rewritten: \<open>r\<close> itself, or the \<^verbatim>\<open>queryOutput\<close> and the
  \<^verbatim>\<open>analyzerMeta\<close> that the new object shares with \<open>r\<close>.
\<close>

definition leftInResult :: "(jsval \<Rightarrow> jsval) \<Rightarrow> bool \<Rightarrow> jsval \<Rightarrow> jsval" where
  "leftInResult P visited r =
     (if truthy (field r ''analyzerMeta'')
      then (if visited
            then P (modify ''analyzerMeta'' (modify ''targetProject'' withoutPath) r)
            else modify ''analyzerMeta'' (modify ''targetProject'' (\<lambda>t. P (withoutPath t))) r)
      else (if visited
            then modify ''queryOutput'' P
                   (modify ''meta''
                      (modify ''analyzerMeta''
                         (\<lambda>am. P (modify ''targetProject'' withoutPath am))) r)
            else modify ''meta''
                   (modify ''analyzerMeta''
                      (modify ''targetProject'' (\<lambda>t. P (withoutPath t)))) r))"

text \<open>
  What the call leaves in the configuration object of the caller. The provided
  reference result is deleted from \<^verbatim>\<open>cfg\<close> before \<^verbatim>\<open>posixify\<close> runs, and
  so is the provided target result when there is no reference result; the two paths are
  deleted too. Every other property of \<^verbatim>\<open>cfg\<close> is visited, and its value is the
  object that the caller's configuration holds; a string that \<^verbatim>\<open>posixify\<close>
  replaces in \<^verbatim>\<open>cfg\<close> itself is replaced in the copy only.
\<close>

definition leftInPassed :: "(jsval \<Rightarrow> jsval) \<Rightarrow> props \<Rightarrow> state \<Rightarrow> props" where
  "leftInPassed P configuration st =
     map (\<lambda>(k, v). (k,
        if k = ''targetProjectResult''
        then (if targetMetaShared st
              then leftInResult P (truthy (obj_get configuration ''referenceProjectResult'')) v
              else v)
        else if k = ''referenceProjectResult''
        then (if referenceMetaShared st then leftInResult P False v else v)
        else if k = ''targetProjectPath'' \<or> k = ''referenceProjectPath'' then v
        else P v)) (passedConfig st)"

text \<open>
  \<^verbatim>\<open>ensureAnalyzerResultFormat(queryOutput, configuration, analyzer)\<close>. It
  deletes \<^verbatim>\<open>path\<close> from the metadata objects of the instance, which the result
  then shares; the returned state holds them as the call leaves them. The reference
  metadata of a provided reference result is shared with the configuration in the same
  way, under \<^verbatim>\<open>referenceProjectResult\<close>, a property that line 229 deletes
  whenever it holds an object: nothing of it is left in the result. The configuration
  object is the local \<^verbatim>\<open>cfg\<close> of \<^verbatim>\<open>execute\<close>, not used after the call.
  When the loop over the query output throws, \<^verbatim>\<open>posixify\<close> has not run.
  \<^verbatim>\<open>posixify\<close> reaches a shared target metadata twice, through
  \<^verbatim>\<open>analyzerMeta.targetProject\<close> and through the configuration; the model
  rewrites each occurrence once, which is the same when the metadata holds no string
  under a key \<^verbatim>\<open>file\<close> (it holds \<^verbatim>\<open>name\<close> and \<^verbatim>\<open>version\<close>)
  or when \<^verbatim>\<open>toPosixPath\<close> leaves a rewritten path as it is.
\<close>

definition ensureAnalyzerResultFormat :: "env \<Rightarrow> jsval \<Rightarrow> props \<Rightarrow> state \<Rightarrow> (error + jsval) \<times> state" where
  "ensureAnalyzerResultFormat E queryOutput configuration st =
     (let tm = withoutPath (targetProjectMeta st);
          rm = withoutPath (referenceProjectMeta st);
          optional = (if truthy tm then [(''targetProject'', tm)] else [])
                   @ (if truthy rm then [(''referenceProject'', rm)] else []);
          st1 = st\<lparr>targetProjectMeta := tm, referenceProjectMeta := rm,
                    passedConfig := leftInPassed (\<lambda>v. v) configuration st\<rparr>;
          shared = (if targetMetaShared st then withoutSharedPath configuration
                    else configuration)
      in case stripProjectPaths queryOutput of
           Inl e \<Rightarrow> (Inl e, st1)
         | Inr out \<Rightarrow>
            (let aResult = JObj [(''queryOutput'', out),
                   (''analyzerMeta'', JObj ([(''name'', JStr (analyzerName st)),
                      (''requiredAst'', JStr (requiredAst st)),
                      (''identifier'', identifier' st)] @ optional @
                      [(''configuration'', JObj (cleanConfiguration shared))]))]
             in if platform E = ''win32''
                then (Inr (posixify (toPosixPath E) aResult),
                      st1\<lparr>targetProjectMeta := posixify (toPosixPath E) tm,
                          referenceProjectMeta := posixify (toPosixPath E) rm,
                          passedConfig :=
                            leftInPassed (posixify (toPosixPath E)) configuration st\<rparr>)
                else (Inr aResult, st1)))"

section \<open>Provided and cached results\<close>

definition unwindJsonResult :: "jsval \<Rightarrow> error + jsval" where
  "unwindJsonResult r =
     (case get_prop r ''queryOutput'' of Inl e \<Rightarrow> Inl e | Inr queryOutput \<Rightarrow>
     (case get_prop r ''meta'' of Inl e \<Rightarrow> Inl e | Inr m \<Rightarrow>
     (case get_prop m ''analyzerMeta'' of Inl e \<Rightarrow> Inl e | Inr analyzerMeta \<Rightarrow>
        Inr (JObj [(''queryOutput'', queryOutput), (''analyzerMeta'', analyzerMeta)]))))"

text \<open>One \<^verbatim>\<open>if\<close> of \<^verbatim>\<open>Analyzer.__unwindProvidedResults(cfg)\<close>, for the
  property \<open>key\<close> of the configuration.\<close>

definition unwindProvided :: "string \<Rightarrow> props \<Rightarrow> error + props" where
  "unwindProvided key cfg =
     (let r = obj_get cfg key in
      if \<not> truthy r then Inr cfg
      else (case get_prop r ''analyzerMeta'' of Inl e \<Rightarrow> Inl e
            | Inr am \<Rightarrow>
               if truthy am then Inr cfg
               else (case unwindJsonResult r of Inl e \<Rightarrow> Inl e
                     | Inr u \<Rightarrow> Inr (AList.update key u cfg))))"

definition unwindProvidedResults :: "props \<Rightarrow> error + props" where
  "unwindProvidedResults cfg =
     (case unwindProvided ''targetProjectResult'' cfg of Inl e \<Rightarrow> Inl e
      | Inr cfg1 \<Rightarrow> unwindProvided ''referenceProjectResult'' cfg1)"

text \<open>Modelled from the spec: the Cache Store's
  \<^verbatim>\<open>get(analyzerName, identifier) -> CachedResult | undefined\<close>, which the code
  calls as \<^verbatim>\<open>ReportService.getCachedResult\<close>; that service is not part of the
  sources at hand.\<close>

definition getCachedResult :: "state \<Rightarrow> string \<Rightarrow> jsval \<Rightarrow> jsval" where
  "getCachedResult st name ident =
     (case cacheStore st (name, ident) of None \<Rightarrow> JUndefined | Some r \<Rightarrow> r)"

text \<open>\<^verbatim>\<open>Analyzer._getCachedAnalyzerResult({ analyzerName, identifier })\<close>\<close>

definition getCachedAnalyzerResult :: "string \<Rightarrow> jsval \<Rightarrow> state \<Rightarrow> (error + jsval) \<times> state" where
  "getCachedAnalyzerResult name ident st =
     (let cachedResult = getCachedResult st name ident in
      if \<not> truthy cachedResult then (Inr JUndefined, st)
      else
        (let st1 = add_log (SuccessCached ident) st in
         case unwindJsonResult cachedResult of Inl e \<Rightarrow> (Inl e, st1)
         | Inr result \<Rightarrow>
            (case get_prop result ''analyzerMeta'' of Inl e \<Rightarrow> (Inl e, st1)
             | Inr am \<Rightarrow>
                (case set_prop am ''__fromCache'' (JBool True) of Inl e \<Rightarrow> (Inl e, st1)
                 | Inr am' \<Rightarrow>
                    (case set_prop result ''analyzerMeta'' am' of Inl e \<Rightarrow> (Inl e, st1)
                     | Inr result' \<Rightarrow> (Inr result', st1))))))"

section \<open>The prepare phase\<close>

text \<open>Lines 328 to 332 of \<^verbatim>\<open>_prepare\<close>: the value assigned to
  \<^verbatim>\<open>this.targetProjectMeta\<close>.\<close>

definition resolveTargetMeta :: "env \<Rightarrow> props \<Rightarrow> error + jsval" where
  "resolveTargetMeta E cfg =
     (if \<not> truthy (obj_get cfg ''targetProjectResult'')
      then getProjectMeta E (obj_get cfg ''targetProjectPath'')
      else (case get_prop (obj_get cfg ''targetProjectResult'') ''analyzerMeta'' of
              Inl e \<Rightarrow> Inl e
            | Inr am \<Rightarrow> get_prop am ''targetProject''))"

text \<open>Lines 334 to 338: the value of \<^verbatim>\<open>this.referenceProjectMeta\<close> afterwards;
  \<open>current\<close> is its value before, which stays when the configuration names no
  reference. A provided reference result gives its \<^verbatim>\<open>targetProject\<close>.\<close>

definition resolveReferenceMeta :: "env \<Rightarrow> props \<Rightarrow> jsval \<Rightarrow> error + jsval" where
  "resolveReferenceMeta E cfg current =
     (if truthy (obj_get cfg ''referenceProjectPath'')
         \<and> \<not> truthy (obj_get cfg ''referenceProjectResult'')
      then getProjectMeta E (obj_get cfg ''referenceProjectPath'')
      else if truthy (obj_get cfg ''referenceProjectResult'')
      then (case get_prop (obj_get cfg ''referenceProjectResult'') ''analyzerMeta'' of
              Inl e \<Rightarrow> Inl e
            | Inr am \<Rightarrow> get_prop am ''targetProject'')
      else Inr current)"

text \<open>The argument of \<^verbatim>\<open>ReportService.createIdentifier\<close>.\<close>

definition identifierSeed :: "jsval \<Rightarrow> jsval \<Rightarrow> props \<Rightarrow> jsval" where
  "identifierSeed tm rm cfg =
     JObj [(''targetProject'', tm), (''referenceProject'', rm), (''analyzerConfig'', JObj cfg)]"

text \<open>Lines 373 to 401: the cache lookup and, on a miss, the loading of the file
  data. The value is what \<^verbatim>\<open>_prepare\<close> returns.\<close>

definition lookupOrLoad :: "env \<Rightarrow> props \<Rightarrow> state \<Rightarrow> (error + jsval) \<times> state" where
  "lookupOrLoad E cfg st =
     (case getCachedAnalyzerResult (analyzerName st) (identifier' st) st of
        (Inl e, st1) \<Rightarrow> (Inl e, st1)
      | (Inr cachedResult, st1) \<Rightarrow>
         if truthy cachedResult then (Inr cachedResult, st1)
         else
          (let st2 = add_log (InfoStarting (analyzerName st1) (identifier' st1)) st1 in
           case (if \<not> truthy (obj_get cfg ''targetProjectResult'')
                 then (case createDataObject E [obj_get cfg ''targetProjectPath'']
                              (obj_get cfg ''gatherFilesConfig'') of
                         Inl e \<Rightarrow> Inl e
                       | Inr d \<Rightarrow> Inr (st2\<lparr>targetData := d\<rparr>))
                 else Inr st2) of
             Inl e \<Rightarrow> (Inl e, st2)
           | Inr st3 \<Rightarrow>
              (if truthy (obj_get cfg ''referenceProjectPath'')
               then (case createDataObject E [obj_get cfg ''referenceProjectPath'']
                            (if truthy (obj_get cfg ''gatherFilesConfigReference'')
                             then obj_get cfg ''gatherFilesConfigReference''
                             else obj_get cfg ''gatherFilesConfig'') of
                       Inl e \<Rightarrow> (Inl e, st3)
                     | Inr d \<Rightarrow> (Inr JUndefined, st3\<lparr>referenceData := d\<rparr>))
               else (Inr JUndefined, st3))))"

text \<open>Lines 351 to 368 and what follows: the compatibility gate.\<close>

definition gateOrLookup :: "env \<Rightarrow> props \<Rightarrow> state \<Rightarrow> (error + jsval) \<times> state" where
  "gateOrLookup E cfg st =
     (if truthy (obj_get cfg ''referenceProjectPath'')
         \<and> \<not> truthy (obj_get cfg ''skipCheckMatchCompatibility'')
      then (case checkForMatchCompatibility E (obj_get cfg ''referenceProjectPath'')
                   (obj_get cfg ''targetProjectPath'') of
              Inl e \<Rightarrow> (Inl e, st)
            | Inr (Incompatible reason) \<Rightarrow>
                ensureAnalyzerResultFormat E (JStr (''['' @ reason @ '']'')) cfg
                  (add_log (InfoSkipping (analyzerName st) (identifier' st) reason
                              (obj_get cfg ''targetProjectPath'')) st)
            | Inr Compatible \<Rightarrow> lookupOrLoad E cfg st)
      else lookupOrLoad E cfg st)"

text \<open>
  \<^verbatim>\<open>_prepare(cfg)\<close>. It returns the value of the call together with the
  configuration as \<^verbatim>\<open>__unwindProvidedResults\<close> has left it, which
  \<^verbatim>\<open>execute\<close> passes on to \<^verbatim>\<open>_finalize\<close>.
\<close>

definition prepare :: "env \<Rightarrow> props \<Rightarrow> state \<Rightarrow> (error + jsval \<times> props) \<times> state" where
  "prepare E cfg0 st0 =
     (let st1 = add_log (DebugStarted (analyzerName st0) ''_prepare'') st0 in
      case unwindProvidedResults cfg0 of Inl e \<Rightarrow> (Inl e, st1)
      | Inr cfg \<Rightarrow>
        (case resolveTargetMeta E cfg of Inl e \<Rightarrow> (Inl e, st1)
         | Inr tm \<Rightarrow>
           (let st2 = st1\<lparr>targetProjectMeta := tm,
                        targetMetaShared := truthy (obj_get cfg ''targetProjectResult'')\<rparr> in
            case resolveReferenceMeta E cfg (referenceProjectMeta st2) of
              Inl e \<Rightarrow> (Inl e, st2)
            | Inr rm \<Rightarrow>
               (let st3 = st2\<lparr>referenceProjectMeta := rm,
                             referenceMetaShared :=
                               truthy (obj_get cfg ''referenceProjectResult'')\<rparr>;
                    st4 = st3\<lparr>identifier' :=
                            JStr (createIdentifier E (identifierSeed tm rm cfg))\<rparr>
                in case gateOrLookup E cfg st4 of
                     (Inl e, st5) \<Rightarrow> (Inl e, st5)
                   | (Inr v, st5) \<Rightarrow> (Inr (v, cfg), st5)))))"

section \<open>The traverse phase\<close>

record analysis_context =
  code :: jsval
  relativePath :: string
  projectData :: project_data

text \<open>
  The per-file analysis is a function of the analyzer that calls \<^verbatim>\<open>_traverse\<close>.
  It may keep a state of its own, of type \<open>'u\<close>, and throw; its value is any
  JavaScript value.
\<close>

type_synonym 'u ast_analysis = "jsval \<Rightarrow> analysis_context \<Rightarrow> 'u \<Rightarrow> (error + jsval) \<times> 'u"

text \<open>\<^verbatim>\<open>{ code: astContext.code, relativePath, projectData }\<close>\<close>

definition entryContext :: "env \<Rightarrow> project_data \<Rightarrow> ast_entry \<Rightarrow> analysis_context" where
  "entryContext E pd en =
     \<lparr>code = entry_code en,
      relativePath = getFilePathRelativeFromRoot E (entry_file en) (project_path pd),
      projectData = pd\<rparr>"

text \<open>The body of the \<^verbatim>\<open>for ... of\<close> loop of \<^verbatim>\<open>analyzePerAstEntry\<close>, for one
  entry: the entry pushed.\<close>

definition analyzeEntry ::
  "env \<Rightarrow> project_data \<Rightarrow> 'u ast_analysis \<Rightarrow> ast_entry \<Rightarrow> 'u \<times> state \<Rightarrow> (error + jsval) \<times> ('u \<times> state)" where
  "analyzeEntry E pd astAnalysis en s =
     (case s of (u, st) \<Rightarrow>
      (let ctx = entryContext E pd en;
           rel = relativePath ctx;
           st1 = add_log (DebugFile (path_resolve E (project_path pd) (entry_file en))) st
       in case astAnalysis (entry_ast en) ctx u of
            (Inl e, u1) \<Rightarrow> (Inl e, (u1, st1))
          | (Inr v, u1) \<Rightarrow>
             (case get_prop v ''result'' of Inl e \<Rightarrow> (Inl e, (u1, st1))
              | Inr result \<Rightarrow>
                (case get_prop v ''meta'' of Inl e \<Rightarrow> (Inl e, (u1, st1))
                 | Inr meta \<Rightarrow>
                    (Inr (JObj [(''file'', JStr rel), (''meta'', meta), (''result'', result)]),
                     (u1, st1))))))"

fun analyzeLoop ::
  "env \<Rightarrow> project_data \<Rightarrow> 'u ast_analysis \<Rightarrow> ast_entry list \<Rightarrow> 'u \<times> state \<Rightarrow> (error + jsval list) \<times> ('u \<times> state)" where
  "analyzeLoop E pd astAnalysis [] s = (Inr [], s)"
| "analyzeLoop E pd astAnalysis (en # ens) s =
     (case analyzeEntry E pd astAnalysis en s of
        (Inl e, s1) \<Rightarrow> (Inl e, s1)
      | (Inr entry, s1) \<Rightarrow>
         (case analyzeLoop E pd astAnalysis ens s1 of
            (Inl e, s2) \<Rightarrow> (Inl e, s2)
          | (Inr entries, s2) \<Rightarrow> (Inr (entry # entries), s2)))"

text \<open>\<^verbatim>\<open>({ result }) => Boolean(result.length)\<close>\<close>

definition hasResult :: "jsval \<Rightarrow> error + bool" where
  "hasResult entry =
     (case get_prop entry ''result'' of Inl e \<Rightarrow> Inl e
      | Inr result \<Rightarrow>
         (case get_prop result ''length'' of Inl e \<Rightarrow> Inl e
          | Inr len \<Rightarrow> Inr (truthy len)))"

fun filterEntries :: "jsval list \<Rightarrow> error + jsval list" where
  "filterEntries [] = Inr []"
| "filterEntries (x # xs) =
     (case hasResult x of Inl e \<Rightarrow> Inl e
      | Inr keep \<Rightarrow>
         (case filterEntries xs of Inl e \<Rightarrow> Inl e
          | Inr ys \<Rightarrow> Inr (if keep then x # ys else ys)))"

definition analyzePerAstEntry ::
  "env \<Rightarrow> project_data \<Rightarrow> 'u ast_analysis \<Rightarrow> 'u \<times> state \<Rightarrow> (error + jsval list) \<times> ('u \<times> state)" where
  "analyzePerAstEntry E pd astAnalysis s =
     (case analyzeLoop E pd astAnalysis (project_entries pd) s of
        (Inl e, s1) \<Rightarrow> (Inl e, s1)
      | (Inr entries, s1) \<Rightarrow>
         (case filterEntries entries of Inl e \<Rightarrow> (Inl e, s1)
          | Inr filteredEntries \<Rightarrow> (Inr filteredEntries, s1)))"

text \<open>\<^verbatim>\<open>_traverse(traverseEntry)\<close>. Reading \<^verbatim>\<open>entries\<close> of
  \<^verbatim>\<open>astDataProjects[0]\<close> throws when the list is empty.\<close>

definition traverse ::
  "env \<Rightarrow> 'u ast_analysis \<Rightarrow> 'u \<times> state \<Rightarrow> (error + jsval list) \<times> ('u \<times> state)" where
  "traverse E traverseEntry s =
     (case s of (u, st) \<Rightarrow>
      (let st1 = add_log (DebugStarted (analyzerName st) ''_traverse'') st in
       case addAstToProjectsData E (targetData st1) ''babel'' of
         Inl e \<Rightarrow> (Inl e, (u, st1))
       | Inr astDataProjects \<Rightarrow>
          (case astDataProjects of
             [] \<Rightarrow> (Inl TypeError, (u, st1))
           | pd # rest \<Rightarrow> analyzePerAstEntry E pd traverseEntry (u, st1))))"

section \<open>The finalize phase and the driver\<close>

text \<open>\<^verbatim>\<open>_finalize(queryOutput, cfg)\<close>\<close>

definition finalize :: "env \<Rightarrow> jsval \<Rightarrow> props \<Rightarrow> state \<Rightarrow> (error + jsval) \<times> state" where
  "finalize E queryOutput cfg st =
     (case ensureAnalyzerResultFormat E queryOutput cfg
             (add_log (DebugStarted (analyzerName st) ''_finalize'') st) of
        (Inl e, st1) \<Rightarrow> (Inl e, st1)
      | (Inr analyzerResult, st1) \<Rightarrow>
          (Inr analyzerResult,
           add_log (SuccessFinished (analyzerName st1) (identifier' st1)) st1))"

text \<open>
  A property name that is an array index, the canonical decimal numeral of a number below
  \<open>2\<^sup>3\<^sup>2 - 1\<close>: an object enumerates these names first, whenever they were added.
\<close>

definition nat_of_digits :: "string \<Rightarrow> nat" where
  "nat_of_digits s = foldl (\<lambda>n c. 10 * n + (of_char c - 48)) 0 s"

definition is_index :: "string \<Rightarrow> bool" where
  "is_index k =
     (k \<noteq> [] \<and> list_all (\<lambda>c. c \<in> set ''0123456789'') k
      \<and> (k = ''0'' \<or> hd k \<noteq> CHR ''0'') \<and> nat_of_digits k < 4294967295)"

text \<open>
  \<^verbatim>\<open>{ targetProjectPath: null, referenceProjectPath: null, ...customConfig }\<close>.
  In the new object the array indices of \<^verbatim>\<open>customConfig\<close> come first, in
  ascending order, then the two defaults, then the other names of
  \<^verbatim>\<open>customConfig\<close> in their order; a name that is one of the defaults gives its
  value to the default and keeps the place of the default.
\<close>

definition defaultedConfig :: "props \<Rightarrow> props" where
  "defaultedConfig customConfig =
     sort_key (\<lambda>(k, v). nat_of_digits k) (filter (\<lambda>(k, v). is_index k) customConfig)
     @ fold (\<lambda>(k, v). AList.update k v) (filter (\<lambda>(k, v). \<not> is_index k) customConfig)
         [(''targetProjectPath'', JNull), (''referenceProjectPath'', JNull)]"

text \<open>
  \<^verbatim>\<open>execute(customConfig)\<close>, with the function given to \<^verbatim>\<open>_traverse\<close> as a
  parameter: the class itself passes the empty function \<^verbatim>\<open>() => {}\<close>, which is
  \<open>emptyTraverseEntry\<close>; an analyzer built on the class passes its per-file analysis.
\<close>

definition emptyTraverseEntry :: "'u ast_analysis" where
  "emptyTraverseEntry ast ctx u = (Inr JUndefined, u)"

definition execute ::
  "env \<Rightarrow> 'u ast_analysis \<Rightarrow> props \<Rightarrow> 'u \<times> state \<Rightarrow> (error + jsval) \<times> ('u \<times> state)" where
  "execute E traverseEntry customConfig s =
     (case s of (u, st) \<Rightarrow>
      (case prepare E (defaultedConfig customConfig)
              (add_log (DebugStarted (analyzerName st) ''execute'')
                 (st\<lparr>passedConfig := customConfig\<rparr>)) of
         (Inl e, st1) \<Rightarrow> (Inl e, (u, st1))
       | (Inr (analyzerResult, cfg), st1) \<Rightarrow>
          if truthy analyzerResult then (Inr analyzerResult, (u, st1))
          else (case traverse E traverseEntry (u, st1) of
                  (Inl e, s2) \<Rightarrow> (Inl e, s2)
                | (Inr queryOutput, (u2, st2)) \<Rightarrow>
                   (case finalize E (JArr queryOutput) cfg st2 of
                      (r, st3) \<Rightarrow> (r, (u2, st3))))))"

section \<open>Notions used to state the properties\<close>

definition has_key :: "jsval \<Rightarrow> string \<Rightarrow> bool" where
  "has_key v k = (case v of JObj kvs \<Rightarrow> k \<in> set (map fst kvs) | _ \<Rightarrow> False)"

text \<open>
  The sanitization invariant of an \<^verbatim>\<open>AnalyzerQueryResult\<close>. The configuration
  holds a provided result under \<^verbatim>\<open>targetProjectResult\<close> or
  \<^verbatim>\<open>referenceProjectResult\<close> when the value there is truthy: a property holding
  \<^verbatim>\<open>null\<close> or \<^verbatim>\<open>undefined\<close> holds no result.
\<close>

definition sanitized :: "jsval \<Rightarrow> bool" where
  "sanitized res =
     (let am = field res ''analyzerMeta''; conf = field am ''configuration'' in
      \<not> has_key conf ''targetProjectPath''
      \<and> \<not> has_key conf ''referenceProjectPath''
      \<and> \<not> (truthy (field conf ''targetProjectResult'')
           \<and> truthy (field conf ''referenceProjectResult''))
      \<and> \<not> has_key (field am ''targetProject'') ''path''
      \<and> \<not> has_key (field am ''referenceProject'') ''path''
      \<and> (case field res ''queryOutput'' of
            JArr outs \<Rightarrow> list_all (\<lambda>out. \<not> has_key (field out ''project'') ''path'') outs
          | _ \<Rightarrow> True))"

text \<open>
  An entry of the Cache Store holds a result when its \<^verbatim>\<open>queryOutput\<close> and its
  \<^verbatim>\<open>meta.analyzerMeta\<close> are those of the result: the shape that
  \<^verbatim>\<open>unwindJsonResult\<close> reads, in which the analyzer's output comes back from
  \<^verbatim>\<open>ReportService\<close>.
\<close>

definition holdsResult :: "jsval \<Rightarrow> jsval \<Rightarrow> bool" where
  "holdsResult entry res =
     (field entry ''queryOutput'' = field res ''queryOutput''
      \<and> field (field entry ''meta'') ''analyzerMeta'' = field res ''analyzerMeta'')"

text \<open>A position in a value: the property names and array indices that lead to it.\<close>

datatype step = Key string | Index nat




text \<open>The state of a per-file analysis at each of its calls, when the calls are made
  one after the other in the order of the list.\<close>

fun callStates :: "('u \<Rightarrow> ast_entry \<Rightarrow> 'u) \<Rightarrow> 'u \<Rightarrow> ast_entry list \<Rightarrow> 'u list" where
  "callStates next u [] = []"
| "callStates next u (en # ens) = u # callStates next (next u en) ens"

text \<open>Modelled from the spec: the Identifier Service
  \<^verbatim>\<open>deriveIdentifier(seed: {targetProject, referenceProject, analyzerConfig}) -> string\<close>,
  ``a deterministic string, pure function of the seed with all filesystem paths
  excluded''. The code calls it as \<^verbatim>\<open>ReportService.createIdentifier\<close>, which is
  not part of the sources at hand. \<open>logicalSeed\<close> removes \<^verbatim>\<open>path\<close> from both
  projects and \<^verbatim>\<open>targetProjectPath\<close>, \<^verbatim>\<open>referenceProjectPath\<close> from the
  configuration; \<open>h\<close> is any function of what is left.\<close>

definition logicalSeed :: "jsval \<Rightarrow> jsval" where
  "logicalSeed seed =
     JObj [(''targetProject'', delete_prop (field seed ''targetProject'') ''path''),
           (''referenceProject'', delete_prop (field seed ''referenceProject'') ''path''),
           (''analyzerConfig'',
              delete_prop (delete_prop (field seed ''analyzerConfig'') ''targetProjectPath'')
                ''referenceProjectPath'')]"

definition deriveIdentifier :: "(jsval \<Rightarrow> string) \<Rightarrow> jsval \<Rightarrow> string" where
  "deriveIdentifier h seed = h (logicalSeed seed)"

text \<open>What is left of a configuration without the two paths, and when the Project
  Metadata Provider gives the same project for two paths: it fails for both, or it gives
  two metadata objects that differ in \<^verbatim>\<open>path\<close> at most.\<close>

definition logicalConfig :: "props \<Rightarrow> props" where
  "logicalConfig cfg = AList.delete ''referenceProjectPath'' (AList.delete ''targetProjectPath'' cfg)"

definition sameProject :: "error + jsval \<Rightarrow> error + jsval \<Rightarrow> bool" where
  "sameProject a b =
     (case a of
        Inl e \<Rightarrow> (case b of Inl e' \<Rightarrow> True | Inr m' \<Rightarrow> False)
      | Inr m \<Rightarrow> (case b of Inl e' \<Rightarrow> False
                  | Inr m' \<Rightarrow> delete_prop m ''path'' = delete_prop m' ''path''))"



text \<open>What the steps of a call after the computation of the identifier leave alone in
  the instance: its name, its identifier, and a reference metadata that is not set.\<close>

definition keeps :: "state \<Rightarrow> state \<Rightarrow> bool" where
  "keeps s s' =
     (analyzerName s' = analyzerName s \<and> identifier' s' = identifier' s
      \<and> (\<not> truthy (referenceProjectMeta s) \<longrightarrow> referenceProjectMeta s' = referenceProjectMeta s))"

text \<open>The passed configuration object is \<open>c\<close> and shares no metadata with the
  instance.\<close>

definition apart :: "props \<Rightarrow> state \<Rightarrow> bool" where
  "apart c s = (passedConfig s = c \<and> \<not> targetMetaShared s \<and> \<not> referenceMetaShared s)"

section \<open>An example installation\<close>

text \<open>
  A target project in \<^verbatim>\<open>/tgt\<close> that depends on \<^verbatim>\<open>dep-a\<close> in the range
  \<^verbatim>\<open>^1.0.0\<close>, a second checkout of it in \<^verbatim>\<open>/checkout2/tgt\<close>, and three
  candidate reference projects: \<^verbatim>\<open>/ref\<close> is
  \<^verbatim>\<open>dep-a\<close> 1.2.0, \<^verbatim>\<open>/ref2\<close> is \<^verbatim>\<open>dep-a\<close> 2.0.0, \<^verbatim>\<open>/refb\<close> is
  \<^verbatim>\<open>dep-b\<close> 1.0.0. The text of a manifest file is represented by the name of the
  file, and the range test knows this one range only. A fourth candidate,
  \<^verbatim>\<open>/refn\<close>, declares the number \<^verbatim>\<open>1\<close> as the version of
  \<^verbatim>\<open>dep-a\<close>.
\<close>

definition manifestOf :: "string \<Rightarrow> string \<Rightarrow> props \<Rightarrow> jsval" where
  "manifestOf name version deps =
     JObj [(''name'', JStr name), (''version'', JStr version), (''dependencies'', JObj deps)]"

definition exampleFiles :: "string \<Rightarrow> jsval option" where
  "exampleFiles file =
     (if file = ''/tgt/package.json'' \<or> file = ''/checkout2/tgt/package.json''
      then Some (manifestOf ''target'' ''0.1.0'' [(''dep-a'', JStr ''^1.0.0'')])
      else if file = ''/ref/package.json'' then Some (manifestOf ''dep-a'' ''1.2.0'' [])
      else if file = ''/ref2/package.json'' then Some (manifestOf ''dep-a'' ''2.0.0'' [])
      else if file = ''/refb/package.json'' then Some (manifestOf ''dep-b'' ''1.0.0'' [])
      else if file = ''/refn/package.json''
      then Some (JObj [(''name'', JStr ''dep-a''), (''version'', JNum 1)])
      else None)"

definition exampleIdentifier :: "jsval \<Rightarrow> string" where
  "exampleIdentifier =
     deriveIdentifier (\<lambda>seed.
       (case field (field seed ''targetProject'') ''name'' of JStr n \<Rightarrow> n | _ \<Rightarrow> ''?'')
       @ ''__'' @
       (case field (field seed ''referenceProject'') ''name'' of JStr n \<Rightarrow> n | _ \<Rightarrow> ''?''))"

definition exampleEnv :: env where
  "exampleEnv =
     \<lparr>platform = ''linux'',
      toPosixPath = map (\<lambda>c. if c = CHR 0x5C then CHR ''/'' else c),
      getFilePathRelativeFromRoot = (\<lambda>file root. ''.'' @ drop (length root) file),
      path_resolve = (\<lambda>dir file. dir @ ''/'' @ file),
      readFileSync = (\<lambda>file. case exampleFiles file of
                               Some m \<Rightarrow> Inr file | None \<Rightarrow> Inl (Failure ''ENOENT'')),
      JSON_parse = (\<lambda>text. case exampleFiles text of
                             Some m \<Rightarrow> Inr m | None \<Rightarrow> Inl (Failure ''SyntaxError'')),
      semver_satisfies = (\<lambda>version range.
                            case version of
                              JStr v \<Rightarrow> Inr (range = JStr ''^1.0.0'' \<and> v = ''1.2.0'')
                            | _ \<Rightarrow> if truthy version then Inl TypeError else Inr False),
      getProjectMeta = (\<lambda>p. case p of
                          JStr dir \<Rightarrow>
                            (case exampleFiles (dir @ ''/package.json'') of
                               Some m \<Rightarrow> Inr (JObj [(''name'', field m ''name''),
                                                    (''version'', field m ''version''),
                                                    (''path'', p)])
                             | None \<Rightarrow> Inl (Failure ''no manifest''))
                        | _ \<Rightarrow> Inl TypeError),
      createIdentifier = exampleIdentifier,
      createDataObject = (\<lambda>paths gatherCfg. Inr (JObj [(''paths'', JArr paths),
                                                       (''gather'', gatherCfg)])),
      addAstToProjectsData = (\<lambda>d dialect.
                                Inr [\<lparr>project_path = ''/tgt'', project_entries = []\<rparr>])\<rparr>"

text \<open>Three files of the target project, in the order of their discovery. The tree of
  a file is represented by the list of the findings in it: none in the first file.\<close>

definition exampleProject :: project_data where
  "exampleProject =
     \<lparr>project_path = ''/tgt'',
      project_entries =
        [\<lparr>entry_file = ''/tgt/f1.js'', entry_ast = JArr [], entry_code = JStr ''f1''\<rparr>,
         \<lparr>entry_file = ''/tgt/f2.js'', entry_ast = JArr [JStr ''a''], entry_code = JStr ''f2''\<rparr>,
         \<lparr>entry_file = ''/tgt/f3.js'', entry_ast = JArr [JStr ''b'', JStr ''c''],
          entry_code = JStr ''f3''\<rparr>]\<rparr>"

text \<open>A new instance of the class itself, an empty Cache Store, an empty log.\<close>

definition newAnalyzer :: state where
  "newAnalyzer =
     \<lparr>analyzerName = [], requiredAst = ''babel'',
      targetProjectMeta = JUndefined, targetMetaShared = False,
      referenceProjectMeta = JUndefined, referenceMetaShared = False, passedConfig = [],
      identifier' = JUndefined, targetData = JUndefined, referenceData = JUndefined,
      cacheStore = (\<lambda>key. None), logged = []\<rparr>"

text \<open>
  An instance at the end of an analysis of the example target without a reference, one
  finding in one file, and the entry that holds the result of this analysis: an entry is
  stored in the shape that \<^verbatim>\<open>unwindJsonResult\<close> reads, the
  \<^verbatim>\<open>analyzerMeta\<close> inside a \<^verbatim>\<open>meta\<close>.
\<close>

definition finishedAnalyzer :: state where
  "finishedAnalyzer =
     newAnalyzer\<lparr>targetProjectMeta :=
                   JObj [(''name'', JStr ''target''), (''version'', JStr ''0.1.0''),
                         (''path'', JStr ''/tgt'')],
                 identifier' := JStr ''target__?''\<rparr>"

definition storedEntry :: jsval where
  "storedEntry =
     JObj [(''queryOutput'', JArr [JObj [(''file'', JStr ''./a.js''),
                                        (''result'', JArr [JStr ''x''])]]),
           (''meta'', JObj [(''analyzerMeta'',
              JObj [(''name'', JStr []), (''requiredAst'', JStr ''babel''),
                    (''identifier'', JStr ''target__?''),
                    (''targetProject'',
                     JObj [(''name'', JStr ''target''), (''version'', JStr ''0.1.0'')]),
                    (''configuration'', JObj [])])])]"

text \<open>A new instance in front of a Cache Store that holds this entry, under the
  identifier of an analysis of the example target without a reference.\<close>

definition analyzerWithCache :: state where
  "analyzerWithCache =
     newAnalyzer\<lparr>cacheStore :=
       (\<lambda>key. if key = ([], JStr ''target__?'') then Some storedEntry else None)\<rparr>"

text \<open>
  A result of an earlier analysis of the example target that still holds the
  \<^verbatim>\<open>path\<close> of the target, to be passed as \<^verbatim>\<open>targetProjectResult\<close>, and
  an installation whose identifier service is not the one of the specification: its
  identifier is the \<^verbatim>\<open>path\<close> of the target metadata.
\<close>

definition providedResult :: jsval where
  "providedResult =
     JObj [(''queryOutput'', JArr []),
           (''analyzerMeta'',
            JObj [(''targetProject'',
                   JObj [(''name'', JStr ''target''), (''path'', JStr ''/tgt'')])])]"

definition pathReadingEnv :: env where
  "pathReadingEnv =
     exampleEnv\<lparr>createIdentifier :=
       (\<lambda>seed. case field (field seed ''targetProject'') ''path'' of
                  JStr dir \<Rightarrow> dir | _ \<Rightarrow> ''no-path'')\<rparr>"

section \<open>Properties\<close>

subsection \<open>Helper facts\<close>


lemma find_name_None:
  "find (\<lambda>(n, r). JStr nm = JStr n) kvs = None \<longleftrightarrow> nm \<notin> fst ` set kvs"
  by (induction kvs) auto

lemma find_name_Some:
  "nm \<in> fst ` set kvs \<Longrightarrow>
   find (\<lambda>(n, r). JStr nm = JStr n) kvs = Some (nm, the (map_of kvs nm))"
  by (induction kvs) auto

lemma find_not_string:
  "\<forall>s. name \<noteq> JStr s \<Longrightarrow> find (\<lambda>(n, r). name = JStr n) kvs = None"
  by (induction kvs) auto

lemmas example_defs =
  exampleEnv_def exampleFiles_def manifestOf_def exampleIdentifier_def newAnalyzer_def
  exampleProject_def analyzerWithCache_def storedEntry_def finishedAnalyzer_def
  providedResult_def pathReadingEnv_def

subsection \<open>The compatibility check\<close>

text \<open>
  Claim C1, as the specification states it, gives every pair of readable manifests one
  of three answers. The reference \<^verbatim>\<open>/refn\<close> declares the name \<^verbatim>\<open>dep-a\<close>,
  which the target depends on, and the number \<^verbatim>\<open>1\<close> as its version: both
  manifests are read, \<^verbatim>\<open>semver.satisfies\<close> throws a \<^verbatim>\<open>TypeError\<close> for a
  version that is truthy and not a string, and \<^verbatim>\<open>checkForMatchCompatibility\<close>,
  which catches nothing, throws it too and returns no answer.
\<close>

theorem checkForMatchCompatibility_counterexample:
  "readPackageJson exampleEnv (JStr ''/refn'') =
     Inr (JObj [(''name'', JStr ''dep-a''), (''version'', JNum 1)])
   \<and> readPackageJson exampleEnv (JStr ''/tgt'') =
       Inr (JObj [(''name'', JStr ''target''), (''version'', JStr ''0.1.0''),
                  (''dependencies'', JObj [(''dep-a'', JStr ''^1.0.0'')])])
   \<and> semver_satisfies exampleEnv (JNum 1) (JStr ''^1.0.0'') = Inl TypeError
   \<and> checkForMatchCompatibility exampleEnv (JStr ''/refn'') (JStr ''/tgt'') = Inl TypeError"
  by (simp add: checkForMatchCompatibility_def readPackageJson_def or_empty_def obj_get_def
        example_defs)

text \<open>
  Claim C1, amended. When both manifests are read and parsed to objects,
  \<^verbatim>\<open>checkForMatchCompatibility\<close> answers \<^verbatim>\<open>no-dependency\<close> when the name
  declared by the reference is not among the names of the target's
  \<^verbatim>\<open>dependencies\<close> and \<^verbatim>\<open>devDependencies\<close>. Otherwise it asks
  \<^verbatim>\<open>semver.satisfies\<close> whether the reference's declared version satisfies the
  range the target declares for that name, the one found first in the
  \<^verbatim>\<open>devDependencies\<close> followed by the \<^verbatim>\<open>dependencies\<close>: it answers
  \<^verbatim>\<open>no-matched-version\<close> when the test says no and compatible when the test says
  yes, and when the test throws it throws the same error and gives no answer.
\<close>

theorem checkForMatchCompatibility_cases:
  assumes ref: "readPackageJson E referencePath = Inr (JObj referencePkg)"
      and tgt: "readPackageJson E targetPath = Inr (JObj targetPkg)"
  shows "checkForMatchCompatibility E referencePath targetPath =
     (let devDeps = object_entries (or_empty (obj_get targetPkg ''devDependencies''));
          deps = object_entries (or_empty (obj_get targetPkg ''dependencies''))
      in if \<not> (\<exists>n. obj_get referencePkg ''name'' = JStr n \<and> n \<in> fst ` set deps \<union> fst ` set devDeps)
         then Inr (Incompatible ''no-dependency'')
         else (case semver_satisfies E (obj_get referencePkg ''version'')
                      (the (map_of (devDeps @ deps) (case obj_get referencePkg ''name'' of JStr n \<Rightarrow> n))) of
                 Inl e \<Rightarrow> Inl e
               | Inr satisfied \<Rightarrow>
                   if \<not> satisfied then Inr (Incompatible ''no-matched-version'')
                   else Inr Compatible))"
proof -
  define devDeps where "devDeps = object_entries (or_empty (obj_get targetPkg ''devDependencies''))"
  define deps where "deps = object_entries (or_empty (obj_get targetPkg ''dependencies''))"
  define name where "name = obj_get referencePkg ''name''"
  show ?thesis
  proof (cases "\<exists>n. name = JStr n")
    case False
    then have "find (\<lambda>(n, r). name = JStr n) (devDeps @ deps) = None"
      by (intro find_not_string) auto
    with False show ?thesis
      unfolding checkForMatchCompatibility_def
      by (simp add: ref tgt Let_def devDeps_def deps_def name_def)
  next
    case True
    then obtain n where n: "name = JStr n" by blast
    show ?thesis
    proof (cases "n \<in> fst ` set (devDeps @ deps)")
      case False
      then have "find (\<lambda>(m, r). JStr n = JStr m) (devDeps @ deps) = None"
        using find_name_None by blast
      with False n show ?thesis
        unfolding checkForMatchCompatibility_def
        by (auto simp add: ref tgt Let_def devDeps_def deps_def name_def)
    next
      case True
      then have f: "find (\<lambda>(m, r). JStr n = JStr m) (devDeps @ deps) = Some (n, the (map_of (devDeps @ deps) n))"
        by (rule find_name_Some)
      from True have ne: "devDeps @ deps \<noteq> []" by auto
      from True n f ne show ?thesis
        unfolding checkForMatchCompatibility_def
        by (auto simp add: ref tgt Let_def devDeps_def deps_def name_def split: sum.split)
    qed
  qed
qed

text \<open>The first example of the specification: \<^verbatim>\<open>dep-a\<close> 1.2.0 against the range
  \<^verbatim>\<open>^1.0.0\<close>.\<close>

theorem checkForMatchCompatibility_cases_witness:
  "readPackageJson exampleEnv (JStr ''/ref'') = Inr (JObj [(''name'', JStr ''dep-a''), (''version'', JStr ''1.2.0''), (''dependencies'', JObj [])])
   \<and> readPackageJson exampleEnv (JStr ''/tgt'') = Inr (JObj [(''name'', JStr ''target''), (''version'', JStr ''0.1.0''), (''dependencies'', JObj [(''dep-a'', JStr ''^1.0.0'')])])
   \<and> semver_satisfies exampleEnv (JStr ''1.2.0'') (JStr ''^1.0.0'') = Inr True
   \<and> checkForMatchCompatibility exampleEnv (JStr ''/ref'') (JStr ''/tgt'') = Inr Compatible"
proof -
  have r: "readPackageJson exampleEnv (JStr ''/ref'') = Inr (JObj [(''name'', JStr ''dep-a''), (''version'', JStr ''1.2.0''), (''dependencies'', JObj [])])"
    by (simp add: readPackageJson_def example_defs)
  have t: "readPackageJson exampleEnv (JStr ''/tgt'') = Inr (JObj [(''name'', JStr ''target''), (''version'', JStr ''0.1.0''), (''dependencies'', JObj [(''dep-a'', JStr ''^1.0.0'')])])"
    by (simp add: readPackageJson_def example_defs)
  have s: "semver_satisfies exampleEnv (JStr ''1.2.0'') (JStr ''^1.0.0'') = Inr True"
    by (simp add: exampleEnv_def)
  from checkForMatchCompatibility_cases [OF r t] have c: "checkForMatchCompatibility exampleEnv (JStr ''/ref'') (JStr ''/tgt'') = Inr Compatible"
    by (simp add: obj_get_def or_empty_def s)
  from r t s c show ?thesis by simp
qed

subsection \<open>Provided and cached results are unwound\<close>

lemma obj_get_update [simp]:
  "obj_get (AList.update k v al) k' = (if k' = k then v else obj_get al k')"
  by (simp add: obj_get_def update_conv')

lemma obj_get_delete [simp]:
  "obj_get (AList.delete k al) k' = (if k' = k then JUndefined else obj_get al k')"
  by (simp add: obj_get_def delete_conv')

lemma get_prop_field:
  "v \<noteq> JUndefined \<Longrightarrow> v \<noteq> JNull \<Longrightarrow> k \<noteq> ''length'' \<Longrightarrow> get_prop v k = Inr (field v k)"
  by (cases v) (simp_all add: field_def)

lemma truthy_not_nullish: "truthy v \<Longrightarrow> v \<noteq> JUndefined \<and> v \<noteq> JNull"
  by (cases v) simp_all

lemma field_not_object: "\<forall>kvs. v \<noteq> JObj kvs \<Longrightarrow> field v k = JUndefined"
  by (cases v) (simp_all add: field_def)

lemma unwindJsonResult_truthy:
  "truthy r \<Longrightarrow>
   unwindJsonResult r =
     (if field r ''meta'' = JUndefined \<or> field r ''meta'' = JNull then Inl TypeError
      else Inr (JObj [(''queryOutput'', field r ''queryOutput''),
                      (''analyzerMeta'', field (field r ''meta'') ''analyzerMeta'')]))"
  by (cases "field r ''meta''")
     (simp_all add: unwindJsonResult_def get_prop_field truthy_not_nullish field_def)

lemma unwindProvided_other:
  "unwindProvided k cfg = Inr cfg' \<Longrightarrow> k' \<noteq> k \<Longrightarrow> obj_get cfg' k' = obj_get cfg k'"
  by (auto simp: unwindProvided_def Let_def split: if_splits sum.splits)

lemma unwindProvided_wrapped:
  "truthy (obj_get cfg k) \<Longrightarrow> \<not> truthy (field (obj_get cfg k) ''analyzerMeta'') \<Longrightarrow>
   unwindProvided k cfg =
     (case unwindJsonResult (obj_get cfg k) of Inl e \<Rightarrow> Inl e
      | Inr u \<Rightarrow> Inr (AList.update k u cfg))"
  by (simp add: unwindProvided_def Let_def get_prop_field truthy_not_nullish)

lemma unwindProvidedResults_wrapped:
  assumes key: "key = ''targetProjectResult'' \<or> key = ''referenceProjectResult''"
      and t: "truthy (obj_get cfg key)"
      and w: "\<not> truthy (field (obj_get cfg key) ''analyzerMeta'')"
      and ok: "unwindProvidedResults cfg = Inr cfg'"
  shows "unwindJsonResult (obj_get cfg key) = Inr (obj_get cfg' key)"
proof -
  from ok obtain cfg1 where
    1: "unwindProvided ''targetProjectResult'' cfg = Inr cfg1" and
    2: "unwindProvided ''referenceProjectResult'' cfg1 = Inr cfg'"
    by (auto simp: unwindProvidedResults_def split: sum.splits)
  from key show ?thesis
  proof
    assume k: "key = ''targetProjectResult''"
    from 1 t w obtain u where u: "unwindJsonResult (obj_get cfg key) = Inr u"
      and c1: "cfg1 = AList.update key u cfg"
      by (auto simp: unwindProvided_wrapped k split: sum.splits)
    from unwindProvided_other [OF 2, of key] have "obj_get cfg' key = obj_get cfg1 key"
      by (simp add: k)
    with u c1 show ?thesis by simp
  next
    assume k: "key = ''referenceProjectResult''"
    from unwindProvided_other [OF 1, of key] have same: "obj_get cfg1 key = obj_get cfg key"
      by (simp add: k)
    with 2 t w obtain u where u: "unwindJsonResult (obj_get cfg key) = Inr u"
      and c1: "cfg' = AList.update key u cfg1"
      by (auto simp: unwindProvided_wrapped k split: sum.splits)
    then show ?thesis by simp
  qed
qed

lemma execute_throws_if_prepare_throws:
  "fst (prepare E (defaultedConfig customConfig)
          (add_log (DebugStarted (analyzerName st) ''execute'') (st\<lparr>passedConfig := customConfig\<rparr>))) = Inl e \<Longrightarrow>
   \<exists>s'. execute E f customConfig (u, st) = (Inl e, s')"
  by (auto simp: execute_def split: prod.splits sum.splits)

lemma prepare_throws:
  "unwindProvidedResults cfg0 = Inl e \<Longrightarrow> fst (prepare E cfg0 st) = Inl e"
  "unwindProvidedResults cfg0 = Inr cfg \<Longrightarrow> resolveTargetMeta E cfg = Inl e \<Longrightarrow>
     fst (prepare E cfg0 st) = Inl e"
  "unwindProvidedResults cfg0 = Inr cfg \<Longrightarrow> resolveTargetMeta E cfg = Inr tm \<Longrightarrow>
   \<forall>cur. resolveReferenceMeta E cfg cur = Inl e \<Longrightarrow> fst (prepare E cfg0 st) = Inl e"
  by (simp_all add: prepare_def Let_def)

text \<open>
  Claim C10. A \<^verbatim>\<open>targetProjectResult\<close> or \<^verbatim>\<open>referenceProjectResult\<close>
  given to \<^verbatim>\<open>execute\<close> without an \<^verbatim>\<open>analyzerMeta\<close> is replaced, in
  \<^verbatim>\<open>_prepare\<close>, by its \<^verbatim>\<open>queryOutput\<close> together with the
  \<^verbatim>\<open>analyzerMeta\<close> read from its \<^verbatim>\<open>meta\<close>. When such a result has no
  \<^verbatim>\<open>meta\<close> object either, \<^verbatim>\<open>execute\<close> throws and returns no result. An entry
  that the Cache Store returns is unwound by the same function, and
  \<^verbatim>\<open>__fromCache\<close> is then set in its \<^verbatim>\<open>analyzerMeta\<close>.
\<close>

theorem provided_results_unwound:
  assumes key: "key = ''targetProjectResult'' \<or> key = ''referenceProjectResult''"
      and r: "r = obj_get (defaultedConfig customConfig) key"
      and t: "truthy r"
      and w: "\<not> truthy (field r ''analyzerMeta'')"
  shows "(\<forall>cfg'. unwindProvidedResults (defaultedConfig customConfig) = Inr cfg' \<longrightarrow>
            obj_get cfg' key =
              JObj [(''queryOutput'', field r ''queryOutput''),
                    (''analyzerMeta'', field (field r ''meta'') ''analyzerMeta'')])
       \<and> ((\<forall>kvs. field r ''meta'' \<noteq> JObj kvs) \<longrightarrow>
            (\<exists>e s'. execute E f customConfig (u, st) = (Inl e, s')))
       \<and> (\<forall>c name ident st'. cacheStore st' (name, ident) = Some c \<and> truthy c \<longrightarrow>
            fst (getCachedAnalyzerResult name ident st') =
              (case unwindJsonResult c of Inl e \<Rightarrow> Inl e
               | Inr res \<Rightarrow>
                  (case set_prop (field res ''analyzerMeta'') ''__fromCache'' (JBool True) of
                     Inl e \<Rightarrow> Inl e
                   | Inr am \<Rightarrow> Inr (JObj [(''queryOutput'', field res ''queryOutput''),
                                         (''analyzerMeta'', am)]))))"
proof (intro conjI allI impI)
  fix cfg'
  assume ok: "unwindProvidedResults (defaultedConfig customConfig) = Inr cfg'"
  from unwindProvidedResults_wrapped [OF key _ _ ok] t w r
  have "unwindJsonResult r = Inr (obj_get cfg' key)" by simp
  with t show "obj_get cfg' key =
      JObj [(''queryOutput'', field r ''queryOutput''),
            (''analyzerMeta'', field (field r ''meta'') ''analyzerMeta'')]"
    by (simp add: unwindJsonResult_truthy split: if_splits)
next
  assume nometa: "\<forall>kvs. field r ''meta'' \<noteq> JObj kvs"
  let ?cfg0 = "defaultedConfig customConfig"
  let ?st = "add_log (DebugStarted (analyzerName st) ''execute'') (st\<lparr>passedConfig := customConfig\<rparr>)"
  have "\<exists>e. fst (prepare E ?cfg0 ?st) = Inl e"
  proof (cases "unwindProvidedResults ?cfg0")
    case (Inl e)
    then show ?thesis using prepare_throws(1) by blast
  next
    case (Inr cfg')
    from unwindProvidedResults_wrapped [OF key _ _ Inr] t w r
    have "unwindJsonResult r = Inr (obj_get cfg' key)" by simp
    with t nometa have v: "obj_get cfg' key =
        JObj [(''queryOutput'', field r ''queryOutput''), (''analyzerMeta'', JUndefined)]"
      by (simp add: unwindJsonResult_truthy field_not_object split: if_splits)
    show ?thesis
    proof (cases "resolveTargetMeta E cfg'")
      case (Inl e)
      with Inr show ?thesis using prepare_throws(2) by blast
    next
      case tm: (Inr tm)
      from key show ?thesis
      proof
        assume "key = ''targetProjectResult''"
        with v tm show ?thesis by (simp add: resolveTargetMeta_def obj_get_def)
      next
        assume "key = ''referenceProjectResult''"
        with v have "\<forall>cur. resolveReferenceMeta E cfg' cur = Inl TypeError"
          by (simp add: resolveReferenceMeta_def obj_get_def)
        with Inr tm show ?thesis using prepare_throws(3) by blast
      qed
    qed
  qed
  then obtain e where "fst (prepare E ?cfg0 ?st) = Inl e" ..
  from execute_throws_if_prepare_throws [OF this, of f u]
  show "\<exists>e s'. execute E f customConfig (u, st) = (Inl e, s')" by blast
next
  fix c name ident and st' :: state
  assume "cacheStore st' (name, ident) = Some c \<and> truthy c"
  then show "fst (getCachedAnalyzerResult name ident st') =
              (case unwindJsonResult c of Inl e \<Rightarrow> Inl e
               | Inr res \<Rightarrow>
                  (case set_prop (field res ''analyzerMeta'') ''__fromCache'' (JBool True) of
                     Inl e \<Rightarrow> Inl e
                   | Inr am \<Rightarrow> Inr (JObj [(''queryOutput'', field res ''queryOutput''),
                                         (''analyzerMeta'', am)])))"
    by (auto simp: getCachedAnalyzerResult_def getCachedResult_def Let_def
          unwindJsonResult_truthy field_def obj_get_def split: sum.splits)
qed

text \<open>A target result with neither \<^verbatim>\<open>analyzerMeta\<close> nor \<^verbatim>\<open>meta\<close> makes
  \<^verbatim>\<open>execute\<close> throw; a reference result that has a \<^verbatim>\<open>meta\<close> is unwound.\<close>

theorem provided_results_unwound_witness:
  "truthy (JObj [(''queryOutput'', JArr [])])
   \<and> \<not> truthy (field (JObj [(''queryOutput'', JArr [])]) ''analyzerMeta'')
   \<and> (\<forall>kvs. field (JObj [(''queryOutput'', JArr [])]) ''meta'' \<noteq> JObj kvs)
   \<and> (\<exists>e s'. execute exampleEnv emptyTraverseEntry
               [(''targetProjectPath'', JStr ''/tgt''),
                (''targetProjectResult'', JObj [(''queryOutput'', JArr [])])]
               ((), newAnalyzer) = (Inl e, s'))
   \<and> map_sum id (\<lambda>cfg'. obj_get cfg' ''referenceProjectResult'')
         (unwindProvidedResults (defaultedConfig
               [(''referenceProjectResult'',
                 JObj [(''queryOutput'', JArr []),
                       (''meta'', JObj [(''analyzerMeta'', JObj [(''name'', JStr ''find-exports'')])])])]))
       = Inr (JObj [(''queryOutput'', JArr []),
                    (''analyzerMeta'', JObj [(''name'', JStr ''find-exports'')])])"
proof -
  let ?r1 = "JObj [(''queryOutput'', JArr [])]"
  let ?c1 = "[(''targetProjectPath'', JStr ''/tgt''), (''targetProjectResult'', ?r1)]"
  let ?r2 = "JObj [(''queryOutput'', JArr []),
                   (''meta'', JObj [(''analyzerMeta'', JObj [(''name'', JStr ''find-exports'')])])]"
  let ?c2 = "[(''referenceProjectResult'', ?r2)]"
  have g1: "?r1 = obj_get (defaultedConfig ?c1) ''targetProjectResult''"
    by (simp add: defaultedConfig_def obj_get_def)
  have g2: "?r2 = obj_get (defaultedConfig ?c2) ''referenceProjectResult''"
    by (simp add: defaultedConfig_def obj_get_def)
  have f1: "\<not> truthy (field ?r1 ''analyzerMeta'')" "\<forall>kvs. field ?r1 ''meta'' \<noteq> JObj kvs"
    by (simp_all add: field_def obj_get_def)
  have f2: "\<not> truthy (field ?r2 ''analyzerMeta'')"
    by (simp add: field_def obj_get_def)
  from provided_results_unwound [of "''targetProjectResult''" ?r1 ?c1 exampleEnv
      emptyTraverseEntry "()" newAnalyzer, OF _ g1 _ f1(1)] f1(2)
  have a: "\<exists>e s'. execute exampleEnv emptyTraverseEntry ?c1 ((), newAnalyzer) = (Inl e, s')"
    by simp
  from provided_results_unwound [of "''referenceProjectResult''" ?r2 ?c2 exampleEnv
      emptyTraverseEntry "()" newAnalyzer, OF _ g2 _ f2]
  have b: "\<forall>cfg'. unwindProvidedResults (defaultedConfig ?c2) = Inr cfg' \<longrightarrow>
           obj_get cfg' ''referenceProjectResult'' =
             JObj [(''queryOutput'', JArr []),
                   (''analyzerMeta'', JObj [(''name'', JStr ''find-exports'')])]"
    by (simp add: field_def obj_get_def)
  have "\<exists>cfg'. unwindProvidedResults (defaultedConfig ?c2) = Inr cfg'"
    by (simp add: defaultedConfig_def unwindProvidedResults_def unwindProvided_def
          unwindJsonResult_def obj_get_def)
  with b have c: "map_sum id (\<lambda>cfg'. obj_get cfg' ''referenceProjectResult'')
         (unwindProvidedResults (defaultedConfig ?c2))
       = Inr (JObj [(''queryOutput'', JArr []),
                    (''analyzerMeta'', JObj [(''name'', JStr ''find-exports'')])])"
    by auto
  have t: "truthy ?r1" by simp
  from t f1 a c show ?thesis by (intro conjI)
qed

subsection \<open>Traversal\<close>

lemma state_logged_append:
  "add_log l st\<lparr>logged := logged (add_log l st) @ ls\<rparr> = st\<lparr>logged := logged st @ l # ls\<rparr>"
  by (simp add: add_log_def)

lemma analyzeLoop_returning:
  fixes res :: "jsval \<Rightarrow> analysis_context \<Rightarrow> 'u \<Rightarrow> jsval list"
    and met :: "jsval \<Rightarrow> analysis_context \<Rightarrow> 'u \<Rightarrow> jsval"
    and nxt :: "jsval \<Rightarrow> analysis_context \<Rightarrow> 'u \<Rightarrow> 'u"
    and E :: env and pd :: project_data
  defines "f \<equiv> \<lambda>ast ctx u.
     (Inr (JObj [(''result'', JArr (res ast ctx u)), (''meta'', met ast ctx u)]), nxt ast ctx u)"
  defines "step \<equiv> \<lambda>u en. nxt (entry_ast en) (entryContext E pd en) u"
  defines "mk \<equiv> \<lambda>(en, u). JObj [(''file'', JStr (relativePath (entryContext E pd en))),
                      (''meta'', met (entry_ast en) (entryContext E pd en) u),
                      (''result'', JArr (res (entry_ast en) (entryContext E pd en) u))]"
  shows "analyzeLoop E pd f ens (u, st) =
     (Inr (map mk (zip ens (callStates step u ens))),
      (foldl step u ens,
       st\<lparr>logged := logged st @
            map (\<lambda>en. DebugFile (path_resolve E (project_path pd) (entry_file en))) ens\<rparr>))"
proof (induction ens arbitrary: u st)
  case Nil
  show ?case by simp
next
  case (Cons en ens)
  have one: "analyzeEntry E pd f en (u, st) =
      (Inr (mk (en, u)),
       (step u en, add_log (DebugFile (path_resolve E (project_path pd) (entry_file en))) st))"
    by (simp add: analyzeEntry_def f_def step_def mk_def Let_def obj_get_def)
  show ?case
    by (simp add: one Cons.IH state_logged_append)
qed

lemma filterEntries_arrays:
  "\<forall>e \<in> set es. \<exists>kvs rs. e = JObj kvs \<and> obj_get kvs ''result'' = JArr rs \<Longrightarrow>
   filterEntries es = Inr (filter (\<lambda>e. field e ''result'' \<noteq> JArr []) es)"
proof (induction es)
  case Nil
  show ?case by simp
next
  case (Cons e es)
  then obtain kvs rs where e: "e = JObj kvs" "obj_get kvs ''result'' = JArr rs" by auto
  then have "hasResult e = Inr (field e ''result'' \<noteq> JArr [])"
    by (simp add: hasResult_def field_def)
  with Cons show ?case by simp
qed

text \<open>
  Claim C7. Take a per-file analysis that returns for each file an array \<open>res\<close> of
  findings and a \<open>met\<close>, and moves its own state by \<open>nxt\<close>. Then
  \<^verbatim>\<open>analyzePerAstEntry\<close> calls it once for each file of the project, one call
  after the other in the order of discovery (each call starts in the state the call
  before has left, and the last state is the fold over the list), and returns the
  entries \<^verbatim>\<open>{file, meta, result}\<close> whose \<^verbatim>\<open>result\<close> is not empty, in the
  order of discovery.
\<close>

theorem traversal_in_order:
  "analyzePerAstEntry E pd
      (\<lambda>ast ctx u. (Inr (JObj [(''result'', JArr (res ast ctx u)), (''meta'', met ast ctx u)]),
                     nxt ast ctx u))
      (u, st) =
   (let ens = project_entries pd;
        step = (\<lambda>u en. nxt (entry_ast en) (entryContext E pd en) u);
        mk = (\<lambda>(en, u). JObj [(''file'', JStr (relativePath (entryContext E pd en))),
                      (''meta'', met (entry_ast en) (entryContext E pd en) u),
                      (''result'', JArr (res (entry_ast en) (entryContext E pd en) u))])
    in (Inr (filter (\<lambda>entry. field entry ''result'' \<noteq> JArr [])
               (map mk (zip ens (callStates step u ens)))),
        (foldl step u ens,
         st\<lparr>logged := logged st @
              map (\<lambda>en. DebugFile (path_resolve E (project_path pd) (entry_file en))) ens\<rparr>)))"
proof -
  let ?mk = "\<lambda>(en, u). JObj [(''file'', JStr (relativePath (entryContext E pd en))),
                      (''meta'', met (entry_ast en) (entryContext E pd en) u),
                      (''result'', JArr (res (entry_ast en) (entryContext E pd en) u))]"
  have "\<forall>e \<in> set (map ?mk ps). \<exists>kvs rs. e = JObj kvs \<and> obj_get kvs ''result'' = JArr rs" for ps
    by (auto simp: obj_get_def)
  from filterEntries_arrays [OF this] show ?thesis
    by (simp add: analyzePerAstEntry_def analyzeLoop_returning Let_def)
qed

text \<open>The example of the specification: of three files, the first without findings,
  the second and the third are returned, in that order; the analysis has been called on
  the three files in their order.\<close>

theorem traversal_in_order_witness:
  "fst (analyzePerAstEntry exampleEnv exampleProject
      (\<lambda>ast ctx u. (Inr (JObj [(''result'', JArr (case ast of JArr xs \<Rightarrow> xs | _ \<Rightarrow> [])),
                                 (''meta'', code ctx)]),
                     u @ [relativePath ctx]))
      ([], newAnalyzer)) =
     Inr [JObj [(''file'', JStr ''./f2.js''), (''meta'', JStr ''f2''),
                (''result'', JArr [JStr ''a''])],
          JObj [(''file'', JStr ''./f3.js''), (''meta'', JStr ''f3''),
                (''result'', JArr [JStr ''b'', JStr ''c''])]]
   \<and> fst (snd (analyzePerAstEntry exampleEnv exampleProject
      (\<lambda>ast ctx u. (Inr (JObj [(''result'', JArr (case ast of JArr xs \<Rightarrow> xs | _ \<Rightarrow> [])),
                                 (''meta'', code ctx)]),
                     u @ [relativePath ctx]))
      ([], newAnalyzer))) = [''./f1.js'', ''./f2.js'', ''./f3.js'']"
  using traversal_in_order [of exampleEnv exampleProject
      "\<lambda>ast ctx u. case ast of JArr xs \<Rightarrow> xs | _ \<Rightarrow> []"
      "\<lambda>ast ctx u. code ctx" "\<lambda>ast ctx u. u @ [relativePath ctx]" "[]" newAnalyzer]
  by (simp add: Let_def exampleProject_def exampleEnv_def entryContext_def field_def obj_get_def)

subsection \<open>Path normalisation\<close>

lemma map_of_map_values:
  "map_of (map (\<lambda>(k, v). (k, g k v)) kvs) k = map_option (g k) (map_of kvs k)"
  by (induction kvs) auto

lemma posixify_string [simp]: "posixify tpp (JStr s) = JStr s"
  by simp







subsection \<open>The Cache Store is only read\<close>

lemmas lifecycle_defs =
  is_index_def nat_of_digits_def withoutSharedPath_def modify_def
  leftInPassed_def leftInResult_def
  execute_def prepare_def defaultedConfig_def unwindProvidedResults_def unwindProvided_def
  unwindJsonResult_def resolveTargetMeta_def resolveReferenceMeta_def identifierSeed_def
  gateOrLookup_def lookupOrLoad_def getCachedAnalyzerResult_def getCachedResult_def
  checkForMatchCompatibility_def readPackageJson_def or_empty_def
  ensureAnalyzerResultFormat_def cleanConfiguration_def stripProjectPaths_def
  stripProjectPath_def withoutPath_def traverse_def analyzePerAstEntry_def analyzeEntry_def
  entryContext_def hasResult_def finalize_def add_log_def emptyTraverseEntry_def
  deriveIdentifier_def logicalSeed_def field_def obj_get_def Let_def

lemma cacheStore_add_log [simp]: "cacheStore (add_log l st) = cacheStore st"
  by (simp add: add_log_def)

lemma cacheStore_ensure [simp]:
  "cacheStore (snd (ensureAnalyzerResultFormat E q cfg st)) = cacheStore st"
  by (simp add: ensureAnalyzerResultFormat_def Let_def del: posixify.simps split: sum.split)

lemma cacheStore_getCached [simp]:
  "cacheStore (snd (getCachedAnalyzerResult name ident st)) = cacheStore st"
  by (simp add: getCachedAnalyzerResult_def Let_def split: sum.split)

lemma cacheStore_lookupOrLoad [simp]:
  "cacheStore (snd (lookupOrLoad E cfg st)) = cacheStore st"
proof -
  obtain r st1 where g: "getCachedAnalyzerResult (analyzerName st) (identifier' st) st = (r, st1)"
    by (cases "getCachedAnalyzerResult (analyzerName st) (identifier' st) st")
  with cacheStore_getCached [of "analyzerName st" "identifier' st" st]
  have "cacheStore st1 = cacheStore st" by simp
  then show ?thesis
    by (simp add: lookupOrLoad_def g Let_def split: sum.split)
qed

lemma cacheStore_gateOrLookup [simp]:
  "cacheStore (snd (gateOrLookup E cfg st)) = cacheStore st"
  by (simp add: gateOrLookup_def split: sum.split compatibility.split)

lemma cacheStore_prepare [simp]:
  "cacheStore (snd (prepare E cfg st)) = cacheStore st"
proof -
  have "cacheStore (snd (case gateOrLookup E c s of (Inl e, s') \<Rightarrow> (Inl e, s')
                         | (Inr v, s') \<Rightarrow> (Inr (v, c), s'))) = cacheStore s" for c s
    using cacheStore_gateOrLookup [of E c s]
    by (cases "gateOrLookup E c s") (simp split: sum.split)
  then show ?thesis
    by (simp add: prepare_def Let_def split: sum.split)
qed

lemma cacheStore_analyzeEntry [simp]:
  "cacheStore (snd (snd (analyzeEntry E pd f en (u, st)))) = cacheStore st"
  by (simp add: analyzeEntry_def Let_def split: sum.split prod.split)

lemma cacheStore_analyzeLoop [simp]:
  "cacheStore (snd (snd (analyzeLoop E pd f ens (u, st)))) = cacheStore st"
proof (induction ens arbitrary: u st)
  case Nil
  show ?case by simp
next
  case (Cons en ens)
  obtain r u1 st1 where a: "analyzeEntry E pd f en (u, st) = (r, (u1, st1))"
    by (metis surj_pair)
  with cacheStore_analyzeEntry [of E pd f en u st] have 1: "cacheStore st1 = cacheStore st"
    by simp
  obtain r2 u2 st2 where b: "analyzeLoop E pd f ens (u1, st1) = (r2, (u2, st2))"
    by (metis surj_pair)
  with Cons.IH [of u1 st1] 1 have "cacheStore st2 = cacheStore st" by simp
  with 1 show ?case by (simp add: a b split: sum.split)
qed

lemma cacheStore_traverse [simp]:
  "cacheStore (snd (snd (traverse E f (u, st)))) = cacheStore st"
proof -
  have "cacheStore (snd (snd (analyzePerAstEntry E pd f (u, s)))) = cacheStore s" for pd s
  proof -
    obtain r u1 s1 where a: "analyzeLoop E pd f (project_entries pd) (u, s) = (r, (u1, s1))"
      by (metis surj_pair)
    with cacheStore_analyzeLoop [of E pd f "project_entries pd" u s] show ?thesis
      by (simp add: analyzePerAstEntry_def split: sum.split)
  qed
  then show ?thesis
    by (simp add: traverse_def Let_def split: sum.split list.split)
qed

lemma cacheStore_finalize [simp]:
  "cacheStore (snd (finalize E q cfg st)) = cacheStore st"
proof -
  let ?s = "add_log (DebugStarted (analyzerName st) ''_finalize'') st"
  obtain r s1 where a: "ensureAnalyzerResultFormat E q cfg ?s = (r, s1)"
    by (metis surj_pair)
  with cacheStore_ensure [of E q cfg ?s] show ?thesis
    by (simp add: finalize_def split: sum.split)
qed

lemma cacheStore_execute:
  "cacheStore (snd (snd (execute E f customConfig (u, st)))) = cacheStore st"
proof -
  let ?s = "add_log (DebugStarted (analyzerName st) ''execute'') (st\<lparr>passedConfig := customConfig\<rparr>)"
  obtain r s1 where p: "prepare E (defaultedConfig customConfig) ?s = (r, s1)"
    by (metis surj_pair)
  with cacheStore_prepare [of E "defaultedConfig customConfig" ?s]
  have 1: "cacheStore s1 = cacheStore st" by simp
  obtain r2 u2 s2 where t: "traverse E f (u, s1) = (r2, (u2, s2))"
    by (metis surj_pair)
  with cacheStore_traverse [of E f u s1] 1 have 2: "cacheStore s2 = cacheStore st" by simp
  have 3: "finalize E q c s2 = (r3, s3) \<Longrightarrow> cacheStore s3 = cacheStore st" for q c r3 s3
    using 2 cacheStore_finalize [of E q c s2] by simp
  show ?thesis
    using 1 2
    by (auto simp: execute_def p t split: sum.split prod.split dest: 3)
qed

text \<open>
  Claim C4, as the specification states it, asks \<^verbatim>\<open>_finalize\<close> to write its
  result into the Cache Store under the analyzer's name and identifier. A complete run
  on the example target (no reference, no file) ends with \<^verbatim>\<open>_finalize\<close>, as the log
  shows, returns a result, and leaves the store without an entry under that key.
\<close>

theorem finalize_writes_cache_counterexample:
  "fst (execute exampleEnv emptyTraverseEntry [(''targetProjectPath'', JStr ''/tgt'')]
          ((), newAnalyzer)) =
     Inr (JObj [(''queryOutput'', JArr []),
                (''analyzerMeta'',
                 JObj [(''name'', JStr []), (''requiredAst'', JStr ''babel''),
                       (''identifier'', JStr ''target__?''),
                       (''targetProject'',
                        JObj [(''name'', JStr ''target''), (''version'', JStr ''0.1.0'')]),
                       (''configuration'', JObj [])])])
   \<and> logged (snd (snd (execute exampleEnv emptyTraverseEntry
          [(''targetProjectPath'', JStr ''/tgt'')] ((), newAnalyzer)))) =
       [DebugStarted [] ''execute'', DebugStarted [] ''_prepare'',
        InfoStarting [] (JStr ''target__?''), DebugStarted [] ''_traverse'',
        DebugStarted [] ''_finalize'', SuccessFinished [] (JStr ''target__?'')]
   \<and> cacheStore (snd (snd (execute exampleEnv emptyTraverseEntry
          [(''targetProjectPath'', JStr ''/tgt'')] ((), newAnalyzer))))
         ([], JStr ''target__?'') = None"
  by (simp add: lifecycle_defs example_defs)

text \<open>
  Claim C4, amended. \<^verbatim>\<open>_finalize\<close> returns what
  \<^verbatim>\<open>ensureAnalyzerResultFormat\<close> makes of the query output and the configuration,
  and it leaves the Cache Store as it was; so does a whole call of \<^verbatim>\<open>execute\<close>,
  however it ends: no phase of the lifecycle writes a cache entry, the store is only
  read, in \<^verbatim>\<open>_prepare\<close>.
\<close>

theorem lifecycle_never_writes_cache:
  "fst (finalize E queryOutput cfg st) =
     fst (ensureAnalyzerResultFormat E queryOutput cfg
            (add_log (DebugStarted (analyzerName st) ''_finalize'') st))
   \<and> cacheStore (snd (finalize E queryOutput cfg st)) = cacheStore st
   \<and> cacheStore (snd (snd (execute E traverseEntry customConfig (u, st)))) = cacheStore st"
proof (intro conjI)
  show "fst (finalize E queryOutput cfg st) =
     fst (ensureAnalyzerResultFormat E queryOutput cfg
            (add_log (DebugStarted (analyzerName st) ''_finalize'') st))"
    by (simp add: finalize_def split: prod.split sum.split)
qed (simp_all add: cacheStore_execute)

subsection \<open>Loading the file data\<close>

lemma unwindProvidedResults_other:
  assumes "unwindProvidedResults cfg0 = Inr cfg"
      and "k \<noteq> ''targetProjectResult''" and "k \<noteq> ''referenceProjectResult''"
  shows "obj_get cfg k = obj_get cfg0 k"
proof -
  from assms(1) obtain cfg1 where
    1: "unwindProvided ''targetProjectResult'' cfg0 = Inr cfg1" and
    2: "unwindProvided ''referenceProjectResult'' cfg1 = Inr cfg"
    by (auto simp: unwindProvidedResults_def split: sum.splits)
  from unwindProvided_other [OF 2, of k] unwindProvided_other [OF 1, of k] assms(2,3)
  show ?thesis by simp
qed

lemma unwindProvided_truthy:
  "unwindProvided k cfg = Inr cfg' \<Longrightarrow> truthy (obj_get cfg' k') = truthy (obj_get cfg k')"
  by (auto simp: unwindProvided_def Let_def unwindJsonResult_def split: if_splits sum.splits)

lemma unwindProvidedResults_truthy:
  assumes "unwindProvidedResults cfg0 = Inr cfg"
  shows "truthy (obj_get cfg k) = truthy (obj_get cfg0 k)"
proof -
  from assms(1) obtain cfg1 where
    1: "unwindProvided ''targetProjectResult'' cfg0 = Inr cfg1" and
    2: "unwindProvided ''referenceProjectResult'' cfg1 = Inr cfg"
    by (auto simp: unwindProvidedResults_def split: sum.splits)
  from unwindProvided_truthy [OF 2, of k] unwindProvided_truthy [OF 1, of k]
  show ?thesis by simp
qed

lemma ensure_result_object:
  "fst (ensureAnalyzerResultFormat E q cfg st) = Inr v \<Longrightarrow> \<exists>kvs. v = JObj kvs"
  by (auto simp: ensureAnalyzerResultFormat_def Let_def split: sum.splits if_splits)

lemma getCached_miss:
  "getCachedAnalyzerResult name ident st = (Inr c, st1) \<Longrightarrow> \<not> truthy c \<Longrightarrow>
   st1 = st \<and> \<not> truthy (getCachedResult st name ident)"
  by (cases "getCachedResult st name ident")
     (auto simp: getCachedAnalyzerResult_def Let_def unwindJsonResult_def
        split: if_splits sum.splits jsval.splits)


lemma lookupOrLoad_undefined:
  assumes "lookupOrLoad E cfg st = (Inr JUndefined, st')"
  shows "(if truthy (obj_get cfg ''targetProjectResult'') then targetData st' = targetData st
          else createDataObject E [obj_get cfg ''targetProjectPath'']
                 (obj_get cfg ''gatherFilesConfig'') = Inr (targetData st'))
       \<and> (if truthy (obj_get cfg ''referenceProjectPath'')
          then createDataObject E [obj_get cfg ''referenceProjectPath'']
                 (if truthy (obj_get cfg ''gatherFilesConfigReference'')
                  then obj_get cfg ''gatherFilesConfigReference''
                  else obj_get cfg ''gatherFilesConfig'') = Inr (referenceData st')
          else referenceData st' = referenceData st)
       \<and> \<not> truthy (getCachedResult st (analyzerName st) (identifier' st))"
proof -
  obtain r st1 where g: "getCachedAnalyzerResult (analyzerName st) (identifier' st) st = (r, st1)"
    by (metis surj_pair)
  with assms obtain c where c: "r = Inr c" "\<not> truthy c"
    by (cases r) (auto simp: lookupOrLoad_def split: if_splits)
  from getCached_miss [OF g [unfolded c(1)] c(2)]
  have m: "st1 = st" "\<not> truthy (getCachedResult st (analyzerName st) (identifier' st))"
    by simp_all
  from assms show ?thesis
    unfolding lookupOrLoad_def g c(1) m(1)
    using c(2) m(2)
    by (auto simp: Let_def add_log_def split: if_splits sum.splits)
qed

lemma gateOrLookup_undefined:
  assumes "gateOrLookup E cfg st = (Inr JUndefined, st')"
  shows "lookupOrLoad E cfg st = (Inr JUndefined, st')"
proof -
  have "ensureAnalyzerResultFormat E q cfg s \<noteq> (Inr JUndefined, st')" for q s
    using ensure_result_object [of E q cfg s JUndefined] by auto
  with assms show ?thesis
    by (auto simp: gateOrLookup_def split: if_splits sum.splits compatibility.splits)
qed

lemma prepare_returns:
  assumes "prepare E cfg0 st = (Inr (v, cfg), st')"
  shows "\<exists>tm rm. unwindProvidedResults cfg0 = Inr cfg
           \<and> resolveTargetMeta E cfg = Inr tm
           \<and> resolveReferenceMeta E cfg (referenceProjectMeta st) = Inr rm
           \<and> gateOrLookup E cfg
                 (add_log (DebugStarted (analyzerName st) ''_prepare'') st
                    \<lparr>targetProjectMeta := tm,
              targetMetaShared := truthy (obj_get cfg ''targetProjectResult''),
              referenceProjectMeta := rm,
                     referenceMetaShared := truthy (obj_get cfg ''referenceProjectResult''),
                     identifier' := JStr (createIdentifier E (identifierSeed tm rm cfg))\<rparr>)
               = (Inr v, st')"
  using assms
  by (auto simp: prepare_def Let_def add_log_def split: sum.splits prod.splits)

text \<open>
  Claim C9, as the specification states it, has \<^verbatim>\<open>_prepare\<close> always load the
  file data of the target on a cache miss. With a provided
  \<^verbatim>\<open>targetProjectResult\<close> in the configuration, \<^verbatim>\<open>_prepare\<close> returns
  \<^verbatim>\<open>undefined\<close> after a cache miss and \<^verbatim>\<open>targetData\<close> is still
  \<^verbatim>\<open>undefined\<close>, although the File Gatherer has data for the target.
\<close>

theorem prepare_loads_target_counterexample:
  "map_sum id fst (fst (prepare exampleEnv
      [(''targetProjectPath'', JStr ''/tgt''), (''referenceProjectPath'', JNull),
       (''targetProjectResult'',
        JObj [(''queryOutput'', JArr []),
              (''analyzerMeta'', JObj [(''targetProject'', JObj [(''name'', JStr ''target'')])])])]
      newAnalyzer)) = Inr JUndefined
   \<and> targetData (snd (prepare exampleEnv
      [(''targetProjectPath'', JStr ''/tgt''), (''referenceProjectPath'', JNull),
       (''targetProjectResult'',
        JObj [(''queryOutput'', JArr []),
              (''analyzerMeta'', JObj [(''targetProject'', JObj [(''name'', JStr ''target'')])])])]
      newAnalyzer)) = JUndefined
   \<and> createDataObject exampleEnv [JStr ''/tgt''] JUndefined =
       Inr (JObj [(''paths'', JArr [JStr ''/tgt'']), (''gather'', JUndefined)])"
  by (simp add: lifecycle_defs example_defs)

text \<open>
  Claim C9, amended. When \<^verbatim>\<open>_prepare\<close> returns \<^verbatim>\<open>undefined\<close>, that is
  after a cache miss: unless a \<^verbatim>\<open>targetProjectResult\<close> was given,
  \<^verbatim>\<open>targetData\<close> is what the File Gatherer returns for the target path and
  \<^verbatim>\<open>gatherFilesConfig\<close> (with a \<^verbatim>\<open>targetProjectResult\<close> it is left as it
  was); and when a \<^verbatim>\<open>referenceProjectPath\<close> is given, \<^verbatim>\<open>referenceData\<close> is
  what the File Gatherer returns for the reference path and
  \<^verbatim>\<open>gatherFilesConfigReference\<close>, or \<^verbatim>\<open>gatherFilesConfig\<close> when the former
  is absent (without a reference path it is left as it was).
\<close>

theorem prepare_loads_file_data:
  assumes "prepare E cfg0 st = (Inr (JUndefined, cfg), st')"
  shows "(if truthy (obj_get cfg0 ''targetProjectResult'') then targetData st' = targetData st
          else createDataObject E [obj_get cfg0 ''targetProjectPath'']
                 (obj_get cfg0 ''gatherFilesConfig'') = Inr (targetData st'))
       \<and> (if truthy (obj_get cfg0 ''referenceProjectPath'')
          then createDataObject E [obj_get cfg0 ''referenceProjectPath'']
                 (if truthy (obj_get cfg0 ''gatherFilesConfigReference'')
                  then obj_get cfg0 ''gatherFilesConfigReference''
                  else obj_get cfg0 ''gatherFilesConfig'') = Inr (referenceData st')
          else referenceData st' = referenceData st)"
proof -
  from prepare_returns [OF assms] obtain tm rm where
    u: "unwindProvidedResults cfg0 = Inr cfg" and
    g: "gateOrLookup E cfg
          (add_log (DebugStarted (analyzerName st) ''_prepare'') st
             \<lparr>targetProjectMeta := tm,
              targetMetaShared := truthy (obj_get cfg ''targetProjectResult''),
              referenceProjectMeta := rm,
              referenceMetaShared := truthy (obj_get cfg ''referenceProjectResult''),
              identifier' := JStr (createIdentifier E (identifierSeed tm rm cfg))\<rparr>)
        = (Inr JUndefined, st')"
    by blast
  note l = lookupOrLoad_undefined [OF gateOrLookup_undefined [OF g]]
  have same: "obj_get cfg ''targetProjectPath'' = obj_get cfg0 ''targetProjectPath''"
    "obj_get cfg ''referenceProjectPath'' = obj_get cfg0 ''referenceProjectPath''"
    "obj_get cfg ''gatherFilesConfig'' = obj_get cfg0 ''gatherFilesConfig''"
    "obj_get cfg ''gatherFilesConfigReference'' = obj_get cfg0 ''gatherFilesConfigReference''"
    by (simp_all add: unwindProvidedResults_other [OF u])
  have t: "truthy (obj_get cfg ''targetProjectResult'') = truthy (obj_get cfg0 ''targetProjectResult'')"
    by (rule unwindProvidedResults_truthy [OF u])
  from l show ?thesis
    unfolding same t by (simp add: add_log_def)
qed

theorem prepare_loads_file_data_witness:
  "fst (prepare exampleEnv
          [(''targetProjectPath'', JStr ''/tgt''), (''referenceProjectPath'', JStr ''/ref''),
           (''gatherFilesConfig'', JStr ''cfg'')] newAnalyzer) =
     Inr (JUndefined,
          [(''targetProjectPath'', JStr ''/tgt''), (''referenceProjectPath'', JStr ''/ref''),
           (''gatherFilesConfig'', JStr ''cfg'')])
   \<and> targetData (snd (prepare exampleEnv
          [(''targetProjectPath'', JStr ''/tgt''), (''referenceProjectPath'', JStr ''/ref''),
           (''gatherFilesConfig'', JStr ''cfg'')] newAnalyzer)) =
       JObj [(''paths'', JArr [JStr ''/tgt'']), (''gather'', JStr ''cfg'')]
   \<and> referenceData (snd (prepare exampleEnv
          [(''targetProjectPath'', JStr ''/tgt''), (''referenceProjectPath'', JStr ''/ref''),
           (''gatherFilesConfig'', JStr ''cfg'')] newAnalyzer)) =
       JObj [(''paths'', JArr [JStr ''/ref'']), (''gather'', JStr ''cfg'')]"
proof -
  let ?c = "[(''targetProjectPath'', JStr ''/tgt''), (''referenceProjectPath'', JStr ''/ref''),
             (''gatherFilesConfig'', JStr ''cfg'')]"
  have f: "fst (prepare exampleEnv ?c newAnalyzer) = Inr (JUndefined, ?c)"
    by (simp add: lifecycle_defs example_defs)
  then have h: "prepare exampleEnv ?c newAnalyzer =
      (Inr (JUndefined, ?c), snd (prepare exampleEnv ?c newAnalyzer))"
    by (simp add: prod_eq_iff)
  from prepare_loads_file_data [OF h]
  have "targetData (snd (prepare exampleEnv ?c newAnalyzer)) =
          JObj [(''paths'', JArr [JStr ''/tgt'']), (''gather'', JStr ''cfg'')]"
       "referenceData (snd (prepare exampleEnv ?c newAnalyzer)) =
          JObj [(''paths'', JArr [JStr ''/ref'']), (''gather'', JStr ''cfg'')]"
    by (simp_all add: obj_get_def exampleEnv_def)
  with f show ?thesis by (intro conjI)
qed

subsection \<open>The result that the formatter builds\<close>

lemma has_key_delete [simp]:
  "has_key (JObj (AList.delete k kvs)) k' = (k' \<noteq> k \<and> has_key (JObj kvs) k')"
  by (auto simp: has_key_def delete_keys)

lemma field_JObj [simp]: "field (JObj kvs) k = obj_get kvs k"
  by (simp add: field_def)

lemma has_key_withoutPath [simp]: "\<not> has_key (withoutPath m) ''path''"
  by (cases m) (simp_all add: withoutPath_def has_key_def delete_keys)

lemma truthy_withoutPath [simp]: "truthy (withoutPath m) = truthy m"
  by (cases m) (simp_all add: withoutPath_def)

lemma cleanConfiguration_sanitized:
  "\<not> has_key (JObj (cleanConfiguration cfg)) ''targetProjectPath''"
  "\<not> has_key (JObj (cleanConfiguration cfg)) ''referenceProjectPath''"
  "\<not> (truthy (obj_get (cleanConfiguration cfg) ''targetProjectResult'')
      \<and> truthy (obj_get (cleanConfiguration cfg) ''referenceProjectResult''))"
  by (simp_all add: cleanConfiguration_def Let_def)

lemma stripProjectPath_sanitized:
  "stripProjectPath x = Inr y \<Longrightarrow> \<not> has_key (field y ''project'') ''path''"
proof (cases x)
  case (JObj kvs)
  assume "stripProjectPath x = Inr y"
  then show ?thesis
    by (cases "obj_get kvs ''project''")
       (auto simp: stripProjectPath_def JObj has_key_def delete_keys split: if_splits)
qed (auto simp: stripProjectPath_def field_def has_key_def split: if_splits)

lemma map_err_all:
  "map_err f xs = Inr ys \<Longrightarrow> (\<And>x y. f x = Inr y \<Longrightarrow> P y) \<Longrightarrow> list_all P ys"
  by (induction xs arbitrary: ys) (auto split: sum.splits)

lemma stripProjectPaths_sanitized:
  assumes "stripProjectPaths q = Inr out"
  shows "case out of
           JArr outs \<Rightarrow> list_all (\<lambda>out. \<not> has_key (field out ''project'') ''path'') outs
         | _ \<Rightarrow> True"
proof (cases q)
  case (JArr xs)
  with assms obtain ys where ys: "map_err stripProjectPath xs = Inr ys" "out = JArr ys"
    by (auto simp: stripProjectPaths_def split: sum.splits)
  from map_err_all [OF ys(1), of "\<lambda>out. \<not> has_key (field out ''project'') ''path''"]
    stripProjectPath_sanitized
  show ?thesis by (simp add: ys(2))
qed (use assms in \<open>auto simp: stripProjectPaths_def\<close>)


lemma map_fst_map_values: "map fst (map (\<lambda>(k, v). (k, g k v)) kvs) = map fst kvs"
  by (induction kvs) auto

lemma has_key_posixify [simp]: "has_key (posixify t v) k = has_key v k"
proof (cases v)
  case (JObj kvs)
  show ?thesis
    unfolding JObj posixify.simps has_key_def jsval.case map_fst_map_values ..
qed (simp_all add: has_key_def)

lemma truthy_posixify [simp]: "truthy (posixify t v) = truthy v"
  by (cases v) simp_all

lemma field_posixify:
  "k \<noteq> ''file'' \<Longrightarrow> field (posixify t v) k = posixify t (field v k)"
proof (cases v)
  case (JObj kvs)
  assume k: "k \<noteq> ''file''"
  show ?thesis
  proof (cases "map_of kvs k")
    case None
    then show ?thesis by (simp add: JObj obj_get_def map_of_map_values)
  next
    case (Some w)
    then show ?thesis using k by (cases w) (simp_all add: JObj obj_get_def map_of_map_values)
  qed
qed (simp_all add: field_def)

lemma sanitized_posixify: "sanitized r \<Longrightarrow> sanitized (posixify t r)"
proof -
  assume s: "sanitized r"
  have q: "(case posixify t q of
              JArr outs \<Rightarrow> list_all (\<lambda>out. \<not> has_key (field out ''project'') ''path'') outs
            | _ \<Rightarrow> True)"
    if "case q of
          JArr outs \<Rightarrow> list_all (\<lambda>out. \<not> has_key (field out ''project'') ''path'') outs
        | _ \<Rightarrow> True" for q
    using that by (cases q) (simp_all add: list_all_iff field_posixify)
  from s show ?thesis
    unfolding sanitized_def Let_def
    by (simp add: field_posixify q del: posixify.simps)
qed

lemma ensure_structure:
  assumes "fst (ensureAnalyzerResultFormat E q cfg st) = Inr res"
  shows "\<exists>out. stripProjectPaths q = Inr out
          \<and> res = (if platform E = ''win32'' then posixify (toPosixPath E) else (\<lambda>v. v))
              (JObj [(''queryOutput'', out),
                 (''analyzerMeta'', JObj ([(''name'', JStr (analyzerName st)),
                    (''requiredAst'', JStr (requiredAst st)),
                    (''identifier'', identifier' st)]
                    @ ((if truthy (targetProjectMeta st)
                        then [(''targetProject'', withoutPath (targetProjectMeta st))] else [])
                     @ (if truthy (referenceProjectMeta st)
                        then [(''referenceProject'', withoutPath (referenceProjectMeta st))]
                        else []))
                    @ [(''configuration'',
                        JObj (cleanConfiguration
                          (if targetMetaShared st then withoutSharedPath cfg else cfg)))]))])"
proof -
  from assms obtain out where out: "stripProjectPaths q = Inr out"
    by (cases "stripProjectPaths q")
       (simp_all add: ensureAnalyzerResultFormat_def Let_def del: posixify.simps)
  from assms show ?thesis
    unfolding ensureAnalyzerResultFormat_def Let_def out
    by (cases "platform E = ''win32''"; cases "truthy (targetProjectMeta st)";
        cases "truthy (referenceProjectMeta st)")
       (simp_all del: posixify.simps)
qed

lemma ensure_sanitized:
  assumes "fst (ensureAnalyzerResultFormat E q cfg st) = Inr res"
  shows "sanitized res"
proof -
  define conf where "conf = cleanConfiguration
                          (if targetMetaShared st then withoutSharedPath cfg else cfg)"
  define am where "am = JObj ([(''name'', JStr (analyzerName st)),
                    (''requiredAst'', JStr (requiredAst st)),
                    (''identifier'', identifier' st)]
                    @ ((if truthy (targetProjectMeta st)
                        then [(''targetProject'', withoutPath (targetProjectMeta st))] else [])
                     @ (if truthy (referenceProjectMeta st)
                        then [(''referenceProject'', withoutPath (referenceProjectMeta st))]
                        else []))
                    @ [(''configuration'', JObj conf)])"
  from ensure_structure [OF assms] obtain out where
    out: "stripProjectPaths q = Inr out" and
    res: "res = (if platform E = ''win32'' then posixify (toPosixPath E) else (\<lambda>v. v))
              (JObj [(''queryOutput'', out), (''analyzerMeta'', am)])"
    unfolding am_def conf_def by blast
  have c: "field am ''configuration'' = JObj conf"
    by (simp add: am_def obj_get_def)
  have t: "\<not> has_key (field am ''targetProject'') ''path''"
    by (simp add: am_def obj_get_def) (simp add: has_key_def)
  have r: "\<not> has_key (field am ''referenceProject'') ''path''"
    by (simp add: am_def obj_get_def) (simp add: has_key_def)
  have "sanitized (JObj [(''queryOutput'', out), (''analyzerMeta'', am)])"
    using stripProjectPaths_sanitized [OF out] t r
      cleanConfiguration_sanitized [of "if targetMetaShared st then withoutSharedPath cfg else cfg"]
    by (simp add: sanitized_def Let_def obj_get_def c conf_def)
  then show ?thesis
    unfolding res using sanitized_posixify by (simp del: posixify.simps)
qed

subsection \<open>The skip-result\<close>




lemma truthy_modify [simp]: "truthy (modify k f v) = truthy v"
  by (cases v) (simp_all add: modify_def)









subsection \<open>Sanitization\<close>

lemma sanitized_tag:
  assumes "sanitized (JObj [(''queryOutput'', q), (''analyzerMeta'', am)])"
      and "set_prop am ''__fromCache'' x = Inr am'"
  shows "sanitized (JObj [(''queryOutput'', q), (''analyzerMeta'', am')])"
proof (cases am)
  case (JObj kvs)
  with assms(2) have am': "am' = JObj (AList.update ''__fromCache'' x kvs)" by simp
  from assms(1) show ?thesis
    by (simp add: sanitized_def Let_def obj_get_def JObj am' update_conv')
next
  case (JArr xs)
  with assms show ?thesis by simp
qed (use assms(2) in simp_all)

lemma cache_hit_sanitized:
  assumes g: "getCachedAnalyzerResult name ident s = (Inr v, s')"
      and v: "truthy v"
      and H: "\<forall>key c. cacheStore s key = Some c \<longrightarrow>
                sanitized (JObj [(''queryOutput'', field c ''queryOutput''),
                                 (''analyzerMeta'', field (field c ''meta'') ''analyzerMeta'')])"
  shows "sanitized v"
proof -
  define c where "c = getCachedResult s name ident"
  have t: "truthy c"
    using g v by (auto simp: getCachedAnalyzerResult_def Let_def c_def split: if_splits)
  then have st: "cacheStore s (name, ident) = Some c"
    by (auto simp: c_def getCachedResult_def split: option.splits)
  let ?q = "field c ''queryOutput''" and ?am = "field (field c ''meta'') ''analyzerMeta''"
  from H st have san: "sanitized (JObj [(''queryOutput'', ?q), (''analyzerMeta'', ?am)])"
    by blast
  from g t obtain am' where
    u: "unwindJsonResult c = Inr (JObj [(''queryOutput'', ?q), (''analyzerMeta'', ?am)])" and
    tag: "set_prop ?am ''__fromCache'' (JBool True) = Inr am'" and
    res: "v = JObj [(''queryOutput'', ?q), (''analyzerMeta'', am')]"
    by (auto simp: getCachedAnalyzerResult_def Let_def c_def [symmetric]
          unwindJsonResult_truthy obj_get_def split: if_splits sum.splits)
  from sanitized_tag [OF san tag] show ?thesis by (simp add: res)
qed

lemma lookupOrLoad_hit:
  assumes "lookupOrLoad E cfg s = (Inr v, s')" and "truthy v"
  shows "getCachedAnalyzerResult (analyzerName s) (identifier' s) s = (Inr v, s')"
proof -
  obtain r s1 where g: "getCachedAnalyzerResult (analyzerName s) (identifier' s) s = (r, s1)"
    by (metis surj_pair)
  with assms show ?thesis
    by (auto simp: lookupOrLoad_def Let_def split: sum.splits if_splits)
qed

lemma gateOrLookup_sanitized:
  assumes g: "gateOrLookup E cfg s = (Inr v, s')" and v: "truthy v"
      and H: "\<forall>key c. cacheStore s key = Some c \<longrightarrow>
                sanitized (JObj [(''queryOutput'', field c ''queryOutput''),
                                 (''analyzerMeta'', field (field c ''meta'') ''analyzerMeta'')])"
  shows "sanitized v"
proof -
  consider q s0 where "ensureAnalyzerResultFormat E q cfg s0 = (Inr v, s')"
    | "lookupOrLoad E cfg s = (Inr v, s')"
    using g by (auto simp: gateOrLookup_def split: if_splits sum.splits compatibility.splits)
  then show ?thesis
  proof cases
    case 1
    then have "fst (ensureAnalyzerResultFormat E q cfg s0) = Inr v" by simp
    then show ?thesis by (rule ensure_sanitized)
  next
    case 2
    from cache_hit_sanitized [OF lookupOrLoad_hit [OF 2 v] v H] show ?thesis .
  qed
qed

lemma sanitized_same_fields:
  assumes "field a ''queryOutput'' = field b ''queryOutput''"
      and "field a ''analyzerMeta'' = field b ''analyzerMeta''"
  shows "sanitized a = sanitized b"
  by (simp add: sanitized_def assms)

lemma stored_result_sanitized:
  assumes r: "fst (ensureAnalyzerResultFormat E q cfg s) = Inr r"
      and h: "holdsResult c r"
  shows "sanitized (JObj [(''queryOutput'', field c ''queryOutput''),
                          (''analyzerMeta'', field (field c ''meta'') ''analyzerMeta'')])"
proof -
  have "sanitized (JObj [(''queryOutput'', field c ''queryOutput''),
                         (''analyzerMeta'', field (field c ''meta'') ''analyzerMeta'')])
        = sanitized r"
    using h by (intro sanitized_same_fields) (simp_all add: holdsResult_def obj_get_def)
  with ensure_sanitized [OF r] show ?thesis by simp
qed

text \<open>
  Claim C3. Let the Cache Store hold analyzer results: every entry holds a result that
  \<^verbatim>\<open>ensureAnalyzerResultFormat\<close> has built, for some query output, configuration
  and instance. Then every result that \<^verbatim>\<open>execute\<close> returns, whether it is a
  skip-result, the result of \<^verbatim>\<open>_finalize\<close> or a cache hit, satisfies the
  sanitization invariant: the configuration has no \<^verbatim>\<open>targetProjectPath\<close> and no
  \<^verbatim>\<open>referenceProjectPath\<close> and does not hold both a \<^verbatim>\<open>targetProjectResult\<close>
  and a \<^verbatim>\<open>referenceProjectResult\<close>; \<^verbatim>\<open>targetProject\<close> and
  \<^verbatim>\<open>referenceProject\<close> have no \<^verbatim>\<open>path\<close>; in a \<^verbatim>\<open>queryOutput\<close> that is
  an array no \<^verbatim>\<open>project\<close> of an entry has a \<^verbatim>\<open>path\<close>. For the results that
  \<^verbatim>\<open>ensureAnalyzerResultFormat\<close> builds in the call itself this needs nothing
  of the store (lemma \<open>ensure_sanitized\<close>).
\<close>

theorem returned_results_sanitized:
  assumes store: "\<forall>key c. cacheStore st key = Some c \<longrightarrow>
                    (\<exists>E' q cfg s r. fst (ensureAnalyzerResultFormat E' q cfg s) = Inr r
                                   \<and> holdsResult c r)"
      and ex: "execute E traverseEntry customConfig (u, st) = (Inr res, s')"
  shows "sanitized res"
proof -
  have H: "\<forall>key c. cacheStore st key = Some c \<longrightarrow>
             sanitized (JObj [(''queryOutput'', field c ''queryOutput''),
                              (''analyzerMeta'', field (field c ''meta'') ''analyzerMeta'')])"
    using store stored_result_sanitized by blast
  let ?s0 = "add_log (DebugStarted (analyzerName st) ''execute'') (st\<lparr>passedConfig := customConfig\<rparr>)"
  obtain r s1 where p: "prepare E (defaultedConfig customConfig) ?s0 = (r, s1)"
    by (metis surj_pair)
  with ex obtain v cfg where r: "r = Inr (v, cfg)"
    by (cases r) (auto simp: execute_def)
  show ?thesis
  proof (cases "truthy v")
    case True
    with ex p r have v: "v = res" by (simp add: execute_def)
    from prepare_returns [OF p [unfolded r]] obtain s4 where
      g: "gateOrLookup E cfg s4 = (Inr v, s1)" and c: "cacheStore s4 = cacheStore st"
      by (auto simp: add_log_def)
    from gateOrLookup_sanitized [OF g True] H c show ?thesis by (simp add: v)
  next
    case False
    with ex p r obtain q s2 s3 where "finalize E q cfg s2 = (Inr res, s3)"
      by (auto simp: execute_def split: sum.splits prod.splits)
    then have "fst (finalize E q cfg s2) = Inr res" by simp
    then have "fst (ensureAnalyzerResultFormat E q cfg
                 (add_log (DebugStarted (analyzerName s2) ''_finalize'') s2)) = Inr res"
      by (simp add: finalize_def split: prod.splits sum.splits)
    then show ?thesis by (rule ensure_sanitized)
  qed
qed

text \<open>A cache hit on the entry that holds the result of an earlier analysis of the
  example target.\<close>

theorem returned_results_sanitized_witness:
  "map_sum id (holdsResult storedEntry)
     (fst (ensureAnalyzerResultFormat exampleEnv
             (JArr [JObj [(''file'', JStr ''./a.js''), (''result'', JArr [JStr ''x''])]])
             [(''targetProjectPath'', JStr ''/tgt''), (''referenceProjectPath'', JNull)]
             finishedAnalyzer)) = Inr True
   \<and> fst (execute exampleEnv emptyTraverseEntry [(''targetProjectPath'', JStr ''/tgt'')]
            ((), analyzerWithCache)) =
       Inr (JObj [(''queryOutput'', JArr [JObj [(''file'', JStr ''./a.js''),
                                               (''result'', JArr [JStr ''x''])]]),
                  (''analyzerMeta'',
                   JObj [(''name'', JStr []), (''requiredAst'', JStr ''babel''),
                         (''identifier'', JStr ''target__?''),
                         (''targetProject'',
                          JObj [(''name'', JStr ''target''), (''version'', JStr ''0.1.0'')]),
                         (''configuration'', JObj []),
                         (''__fromCache'', JBool True)])])
   \<and> sanitized
        (JObj [(''queryOutput'', JArr [JObj [(''file'', JStr ''./a.js''),
                                            (''result'', JArr [JStr ''x''])]]),
               (''analyzerMeta'',
                JObj [(''name'', JStr []), (''requiredAst'', JStr ''babel''),
                      (''identifier'', JStr ''target__?''),
                      (''targetProject'',
                       JObj [(''name'', JStr ''target''), (''version'', JStr ''0.1.0'')]),
                      (''configuration'', JObj []),
                      (''__fromCache'', JBool True)])])"
proof -
  let ?q = "JArr [JObj [(''file'', JStr ''./a.js''), (''result'', JArr [JStr ''x''])]]"
  let ?cfg = "[(''targetProjectPath'', JStr ''/tgt''), (''referenceProjectPath'', JNull)]"
  let ?r = "JObj [(''queryOutput'', ?q),
               (''analyzerMeta'',
                JObj [(''name'', JStr []), (''requiredAst'', JStr ''babel''),
                      (''identifier'', JStr ''target__?''),
                      (''targetProject'',
                       JObj [(''name'', JStr ''target''), (''version'', JStr ''0.1.0'')]),
                      (''configuration'', JObj [])])]"
  let ?c = "[(''targetProjectPath'', JStr ''/tgt'')]"
  let ?res = "JObj [(''queryOutput'', ?q),
               (''analyzerMeta'',
                JObj [(''name'', JStr []), (''requiredAst'', JStr ''babel''),
                      (''identifier'', JStr ''target__?''),
                      (''targetProject'',
                       JObj [(''name'', JStr ''target''), (''version'', JStr ''0.1.0'')]),
                      (''configuration'', JObj []),
                      (''__fromCache'', JBool True)])]"
  have built: "fst (ensureAnalyzerResultFormat exampleEnv ?q ?cfg finishedAnalyzer) = Inr ?r"
    by (simp add: lifecycle_defs stripProjectPath_def withoutPath_def example_defs)
  have holds: "holdsResult storedEntry ?r"
    by (simp add: holdsResult_def storedEntry_def field_def obj_get_def)
  from built holds
  have "\<exists>E' q cfg s r. fst (ensureAnalyzerResultFormat E' q cfg s) = Inr r
                         \<and> holdsResult storedEntry r"
    by blast
  then have store: "\<forall>key c. cacheStore analyzerWithCache key = Some c \<longrightarrow>
       (\<exists>E' q cfg s r. fst (ensureAnalyzerResultFormat E' q cfg s) = Inr r \<and> holdsResult c r)"
    by (auto simp: analyzerWithCache_def newAnalyzer_def split: if_splits)
  have f: "fst (execute exampleEnv emptyTraverseEntry ?c ((), analyzerWithCache)) = Inr ?res"
    by (simp add: lifecycle_defs example_defs)
  then have ex: "execute exampleEnv emptyTraverseEntry ?c ((), analyzerWithCache) =
      (Inr ?res, snd (execute exampleEnv emptyTraverseEntry ?c ((), analyzerWithCache)))"
    by (simp add: prod_eq_iff)
  from returned_results_sanitized [OF store ex] have "sanitized ?res" .
  with f built holds show ?thesis by simp
qed

subsection \<open>The identifier\<close>

lemma keeps_refl [simp]: "keeps s s"
  by (simp add: keeps_def)

lemma keeps_trans: "keeps s s' \<Longrightarrow> keeps s' s'' \<Longrightarrow> keeps s s''"
  by (auto simp: keeps_def)

lemma keeps_add_log [simp]: "keeps s (add_log l s)"
  by (simp add: keeps_def add_log_def)

lemma posixify_falsy: "\<not> truthy v \<Longrightarrow> posixify t v = v"
  by (cases v) simp_all

lemma withoutPath_falsy: "\<not> truthy v \<Longrightarrow> withoutPath v = v"
  by (simp add: withoutPath_def)

lemma keeps_ensure: "keeps s (snd (ensureAnalyzerResultFormat E q cfg s))"
  by (simp add: keeps_def ensureAnalyzerResultFormat_def Let_def posixify_falsy
        withoutPath_falsy del: posixify.simps split: sum.split)

lemma keeps_getCached: "keeps s (snd (getCachedAnalyzerResult name ident s))"
  by (simp add: getCachedAnalyzerResult_def Let_def split: sum.split)

lemma keeps_lookupOrLoad: "keeps s (snd (lookupOrLoad E cfg s))"
proof -
  obtain r s1 where g: "getCachedAnalyzerResult (analyzerName s) (identifier' s) s = (r, s1)"
    by (metis surj_pair)
  with keeps_getCached [of s "analyzerName s" "identifier' s"] have "keeps s s1" by simp
  then show ?thesis
    by (auto simp: lookupOrLoad_def g Let_def keeps_def add_log_def split: sum.split)
qed

lemma keeps_gateOrLookup: "keeps s (snd (gateOrLookup E cfg s))"
proof -
  have "keeps s (snd (ensureAnalyzerResultFormat E q cfg (add_log l s)))" for q l
    using keeps_trans [OF keeps_add_log keeps_ensure] .
  then show ?thesis
    by (simp add: gateOrLookup_def keeps_lookupOrLoad split: sum.split compatibility.split)
qed

lemma identifier_after_prepare:
  "identifier' (snd (prepare E cfg0 st)) =
     (case unwindProvidedResults cfg0 of Inl e \<Rightarrow> identifier' st
      | Inr cfg \<Rightarrow>
         (case resolveTargetMeta E cfg of Inl e \<Rightarrow> identifier' st
          | Inr tm \<Rightarrow>
             (case resolveReferenceMeta E cfg (referenceProjectMeta st) of
                Inl e \<Rightarrow> identifier' st
              | Inr rm \<Rightarrow> JStr (createIdentifier E (identifierSeed tm rm cfg)))))"
proof -
  have g: "identifier' (snd (case gateOrLookup E c s of (Inl e, s') \<Rightarrow> (Inl e, s')
                             | (Inr v, s') \<Rightarrow> (Inr (v, c), s'))) = identifier' s" for c s
    using keeps_gateOrLookup [of s E c]
    by (cases "gateOrLookup E c s") (auto simp: keeps_def split: sum.split)
  show ?thesis
    by (simp add: prepare_def Let_def g add_log_def split: sum.split)
qed


lemma obj_get_logicalConfig:
  "k \<noteq> ''targetProjectPath'' \<Longrightarrow> k \<noteq> ''referenceProjectPath'' \<Longrightarrow>
   obj_get (logicalConfig cfg) k = obj_get cfg k"
  by (simp add: logicalConfig_def)

lemma logicalConfig_update:
  "k \<noteq> ''targetProjectPath'' \<Longrightarrow> k \<noteq> ''referenceProjectPath'' \<Longrightarrow>
   logicalConfig (AList.update k v cfg) = AList.update k v (logicalConfig cfg)"
  by (simp add: logicalConfig_def delete_update)

lemma logicalSeed_identifierSeed:
  "logicalSeed (identifierSeed tm rm cfg) =
     JObj [(''targetProject'', delete_prop tm ''path''),
           (''referenceProject'', delete_prop rm ''path''),
           (''analyzerConfig'', JObj (logicalConfig cfg))]"
  by (simp add: logicalSeed_def identifierSeed_def logicalConfig_def obj_get_def)

lemma unwindProvided_relocated:
  assumes l: "logicalConfig c1 = logicalConfig c2"
      and k: "k \<noteq> ''targetProjectPath''" "k \<noteq> ''referenceProjectPath''"
  shows "(\<exists>e. unwindProvided k c1 = Inl e \<and> unwindProvided k c2 = Inl e)
       \<or> (\<exists>d1 d2. unwindProvided k c1 = Inr d1 \<and> unwindProvided k c2 = Inr d2
              \<and> logicalConfig d1 = logicalConfig d2)"
proof -
  from obj_get_logicalConfig [OF k, of c1] obj_get_logicalConfig [OF k, of c2] l
  have same: "obj_get c1 k = obj_get c2 k" by simp
  show ?thesis
    using l
    by (auto simp: unwindProvided_def same Let_def logicalConfig_update [OF k]
          split: sum.splits)
qed

lemma unwindProvidedResults_relocated:
  assumes l: "logicalConfig c1 = logicalConfig c2"
  shows "(\<exists>e. unwindProvidedResults c1 = Inl e \<and> unwindProvidedResults c2 = Inl e)
       \<or> (\<exists>d1 d2. unwindProvidedResults c1 = Inr d1 \<and> unwindProvidedResults c2 = Inr d2
              \<and> logicalConfig d1 = logicalConfig d2)"
proof -
  from unwindProvided_relocated [OF l, of "''targetProjectResult''"]
  consider e where "unwindProvided ''targetProjectResult'' c1 = Inl e"
      "unwindProvided ''targetProjectResult'' c2 = Inl e"
    | d1 d2 where "unwindProvided ''targetProjectResult'' c1 = Inr d1"
      "unwindProvided ''targetProjectResult'' c2 = Inr d2" "logicalConfig d1 = logicalConfig d2"
    by auto
  then show ?thesis
  proof cases
    case 1
    then show ?thesis by (simp add: unwindProvidedResults_def)
  next
    case 2
    from unwindProvided_relocated [OF 2(3), of "''referenceProjectResult''"] 2(1,2)
    show ?thesis by (simp add: unwindProvidedResults_def)
  qed
qed

text \<open>
  Claim C6. Let the Identifier Service be as the specification describes it: a function
  of the seed without its paths. Take two configurations that differ in
  \<^verbatim>\<open>targetProjectPath\<close> and \<^verbatim>\<open>referenceProjectPath\<close> only, both with or
  both without a reference path, such that the Project Metadata Provider gives the same
  project at the two target paths and at the two reference paths (the same metadata but
  for \<^verbatim>\<open>path\<close>). Then \<^verbatim>\<open>_prepare\<close>, started on the same instance, leaves the
  same identifier in the instance for both.
\<close>

theorem identifier_path_independent:
  assumes spec: "createIdentifier E = deriveIdentifier h"
      and cfgs: "logicalConfig cfg1 = logicalConfig cfg2"
      and refs: "truthy (obj_get cfg1 ''referenceProjectPath'') =
                 truthy (obj_get cfg2 ''referenceProjectPath'')"
      and tgt: "sameProject (getProjectMeta E (obj_get cfg1 ''targetProjectPath''))
                  (getProjectMeta E (obj_get cfg2 ''targetProjectPath''))"
      and ref: "sameProject (getProjectMeta E (obj_get cfg1 ''referenceProjectPath''))
                  (getProjectMeta E (obj_get cfg2 ''referenceProjectPath''))"
  shows "identifier' (snd (prepare E cfg1 st)) = identifier' (snd (prepare E cfg2 st))"
proof -
  from unwindProvidedResults_relocated [OF cfgs]
  consider e where "unwindProvidedResults cfg1 = Inl e" "unwindProvidedResults cfg2 = Inl e"
    | d1 d2 where "unwindProvidedResults cfg1 = Inr d1" "unwindProvidedResults cfg2 = Inr d2"
      "logicalConfig d1 = logicalConfig d2"
    by auto
  then show ?thesis
  proof cases
    case 1
    then show ?thesis by (simp add: identifier_after_prepare)
  next
    case 2
    have res: "obj_get d1 k = obj_get d2 k"
      if "k \<noteq> ''targetProjectPath''" "k \<noteq> ''referenceProjectPath''" for k
      using obj_get_logicalConfig [OF that, of d1] obj_get_logicalConfig [OF that, of d2] 2(3)
      by simp
    have paths: "obj_get d1 ''targetProjectPath'' = obj_get cfg1 ''targetProjectPath''"
      "obj_get d2 ''targetProjectPath'' = obj_get cfg2 ''targetProjectPath''"
      "obj_get d1 ''referenceProjectPath'' = obj_get cfg1 ''referenceProjectPath''"
      "obj_get d2 ''referenceProjectPath'' = obj_get cfg2 ''referenceProjectPath''"
      by (simp_all add: unwindProvidedResults_other [OF 2(1)] unwindProvidedResults_other [OF 2(2)])
    have t: "sameProject (resolveTargetMeta E d1) (resolveTargetMeta E d2)"
      using tgt
      by (auto simp: resolveTargetMeta_def res paths sameProject_def split: sum.splits)
    have r: "sameProject (resolveReferenceMeta E d1 (referenceProjectMeta st))
               (resolveReferenceMeta E d2 (referenceProjectMeta st))"
      using ref refs
      by (auto simp: resolveReferenceMeta_def res paths sameProject_def split: sum.splits)
    from t r show ?thesis
      by (auto simp: identifier_after_prepare 2 spec deriveIdentifier_def
            logicalSeed_identifierSeed sameProject_def split: sum.splits)
  qed
qed

text \<open>The example target and its second checkout.\<close>

theorem identifier_path_independent_witness:
  "createIdentifier exampleEnv = exampleIdentifier
   \<and> logicalConfig [(''targetProjectPath'', JStr ''/tgt''), (''referenceProjectPath'', JNull)] =
       logicalConfig [(''targetProjectPath'', JStr ''/checkout2/tgt''),
                      (''referenceProjectPath'', JNull)]
   \<and> sameProject (getProjectMeta exampleEnv (JStr ''/tgt''))
         (getProjectMeta exampleEnv (JStr ''/checkout2/tgt''))
   \<and> identifier' (snd (prepare exampleEnv
         [(''targetProjectPath'', JStr ''/tgt''), (''referenceProjectPath'', JNull)] newAnalyzer)) =
       identifier' (snd (prepare exampleEnv
         [(''targetProjectPath'', JStr ''/checkout2/tgt''), (''referenceProjectPath'', JNull)]
         newAnalyzer))
   \<and> identifier' (snd (prepare exampleEnv
         [(''targetProjectPath'', JStr ''/tgt''), (''referenceProjectPath'', JNull)] newAnalyzer)) =
       JStr ''target__?''"
proof -
  let ?c1 = "[(''targetProjectPath'', JStr ''/tgt''), (''referenceProjectPath'', JNull)]"
  let ?c2 = "[(''targetProjectPath'', JStr ''/checkout2/tgt''), (''referenceProjectPath'', JNull)]"
  have spec: "createIdentifier exampleEnv = exampleIdentifier"
    by (simp add: exampleEnv_def)
  have cfgs: "logicalConfig ?c1 = logicalConfig ?c2"
    by (simp add: logicalConfig_def)
  have refs: "truthy (obj_get ?c1 ''referenceProjectPath'') =
              truthy (obj_get ?c2 ''referenceProjectPath'')"
    by (simp add: obj_get_def)
  have tgt: "sameProject (getProjectMeta exampleEnv (JStr ''/tgt''))
               (getProjectMeta exampleEnv (JStr ''/checkout2/tgt''))"
    by (simp add: sameProject_def example_defs field_def obj_get_def)
  have ref: "sameProject (getProjectMeta exampleEnv JNull) (getProjectMeta exampleEnv JNull)"
    by (simp add: sameProject_def example_defs)
  from identifier_path_independent [of exampleEnv _ ?c1 ?c2 newAnalyzer,
      OF spec [unfolded exampleIdentifier_def] cfgs refs]
    tgt ref
  have 1: "identifier' (snd (prepare exampleEnv ?c1 newAnalyzer)) =
           identifier' (snd (prepare exampleEnv ?c2 newAnalyzer))"
    by (simp add: obj_get_def)
  have 2: "identifier' (snd (prepare exampleEnv ?c1 newAnalyzer)) = JStr ''target__?''"
    by (simp add: lifecycle_defs example_defs)
  from spec cfgs tgt 1 2 show ?thesis by (intro conjI)
qed

subsection \<open>Running twice\<close>









lemma resolveReferenceMeta_throws:
  "resolveReferenceMeta E cfg a = Inl e \<Longrightarrow> resolveReferenceMeta E cfg b = Inl e"
  by (auto simp: resolveReferenceMeta_def split: if_splits)


lemma add_log_fields [simp]:
  "analyzerName (add_log l s) = analyzerName s"
  "identifier' (add_log l s) = identifier' s"
  "referenceProjectMeta (add_log l s) = referenceProjectMeta s"
  by (simp_all add: add_log_def)















lemma apart_add_log [simp]: "apart c (add_log l s) = apart c s"
  by (simp add: apart_def add_log_def)

lemma apart_ensure:
  assumes "platform E \<noteq> ''win32''" and "apart c s"
  shows "apart c (snd (ensureAnalyzerResultFormat E q cfg s))"
proof -
  from assms(2) have f: "\<not> targetMetaShared s" "\<not> referenceMetaShared s"
    by (simp_all add: apart_def)
  have "leftInPassed (\<lambda>v. v) cfg s = passedConfig s"
    unfolding leftInPassed_def by (intro map_idI) (auto simp: f)
  with assms show ?thesis
    by (simp add: apart_def ensureAnalyzerResultFormat_def Let_def split: sum.split)
qed

lemma apart_getCached: "apart c s \<Longrightarrow> apart c (snd (getCachedAnalyzerResult name ident s))"
  by (simp add: getCachedAnalyzerResult_def Let_def split: sum.split)

lemma apart_lookupOrLoad: "apart c s \<Longrightarrow> apart c (snd (lookupOrLoad E cfg s))"
proof -
  assume a: "apart c s"
  obtain r s1 where g: "getCachedAnalyzerResult (analyzerName s) (identifier' s) s = (r, s1)"
    by (metis surj_pair)
  with apart_getCached [OF a, of "analyzerName s" "identifier' s"] have "apart c s1" by simp
  then show ?thesis
    by (auto simp: lookupOrLoad_def g Let_def apart_def add_log_def split: sum.split)
qed

lemma apart_gateOrLookup:
  assumes "platform E \<noteq> ''win32''" and "apart c s"
  shows "apart c (snd (gateOrLookup E cfg s))"
  using assms
  by (simp add: gateOrLookup_def apart_lookupOrLoad apart_ensure
        split: sum.split compatibility.split)

lemma apart_analyzeEntry: "apart c st \<Longrightarrow> apart c (snd (snd (analyzeEntry E pd f en (u, st))))"
  by (simp add: analyzeEntry_def Let_def split: sum.split prod.split)

lemma apart_analyzeLoop: "apart c st \<Longrightarrow> apart c (snd (snd (analyzeLoop E pd f ens (u, st))))"
proof (induction ens arbitrary: u st)
  case Nil
  then show ?case by simp
next
  case (Cons en ens)
  obtain r u1 st1 where a: "analyzeEntry E pd f en (u, st) = (r, (u1, st1))"
    by (metis surj_pair)
  with apart_analyzeEntry [OF Cons.prems, of E pd f en u] have 1: "apart c st1" by simp
  obtain r2 u2 st2 where b: "analyzeLoop E pd f ens (u1, st1) = (r2, (u2, st2))"
    by (metis surj_pair)
  with Cons.IH [OF 1, of u1] have "apart c st2" by simp
  with 1 show ?case by (simp add: a b split: sum.split)
qed

lemma apart_traverse: "apart c st \<Longrightarrow> apart c (snd (snd (traverse E f (u, st))))"
proof -
  assume a: "apart c st"
  have "apart c (snd (snd (analyzePerAstEntry E pd f (u, s))))" if "apart c s" for pd s
  proof -
    obtain r u1 s1 where l: "analyzeLoop E pd f (project_entries pd) (u, s) = (r, (u1, s1))"
      by (metis surj_pair)
    with apart_analyzeLoop [OF that, of E pd f "project_entries pd" u] show ?thesis
      by (simp add: analyzePerAstEntry_def split: sum.split)
  qed
  with a show ?thesis
    by (simp add: traverse_def Let_def split: sum.split list.split)
qed

lemma apart_finalize:
  assumes "platform E \<noteq> ''win32''" and "apart c st"
  shows "apart c (snd (finalize E q cfg st))"
proof -
  let ?s = "add_log (DebugStarted (analyzerName st) ''_finalize'') st"
  obtain r s1 where a: "ensureAnalyzerResultFormat E q cfg ?s = (r, s1)"
    by (metis surj_pair)
  with apart_ensure [OF assms(1), of c ?s q cfg] assms(2) have "apart c s1" by simp
  then show ?thesis
    by (simp add: finalize_def a split: sum.split)
qed

lemma apart_prepare:
  assumes w: "platform E \<noteq> ''win32''"
      and t: "\<not> truthy (obj_get cfg0 ''targetProjectResult'')"
      and r: "\<not> truthy (obj_get cfg0 ''referenceProjectResult'')"
  shows "passedConfig (snd (prepare E cfg0 s)) = passedConfig s
       \<and> (\<forall>v. fst (prepare E cfg0 s) = Inr v \<longrightarrow> apart (passedConfig s) (snd (prepare E cfg0 s)))"
proof (cases "unwindProvidedResults cfg0")
  case (Inl e)
  then show ?thesis by (simp add: prepare_def Let_def add_log_def)
next
  case (Inr cfg)
  have f: "\<not> truthy (obj_get cfg ''targetProjectResult'')"
    "\<not> truthy (obj_get cfg ''referenceProjectResult'')"
    using t r by (simp_all add: unwindProvidedResults_truthy [OF Inr])
  have g: "apart c (snd (case gateOrLookup E cfg s4 of (Inl e, s') \<Rightarrow> (Inl e, s')
                          | (Inr v, s') \<Rightarrow> (Inr (v, cfg), s')))" if "apart c s4" for c s4
    using apart_gateOrLookup [OF w that, of cfg]
    by (cases "gateOrLookup E cfg s4") (auto split: sum.split)
  show ?thesis
  proof (cases "resolveTargetMeta E cfg")
    case (Inl e)
    then show ?thesis by (simp add: prepare_def Let_def add_log_def Inr)
  next
    case tm: (Inr tm)
    show ?thesis
    proof (cases "resolveReferenceMeta E cfg (referenceProjectMeta s)")
      case (Inl e)
      then show ?thesis by (simp add: prepare_def Let_def add_log_def Inr tm)
    next
      case rm: (Inr rm)
      let ?s4 = "add_log (DebugStarted (analyzerName s) ''_prepare'') s
                   \<lparr>targetProjectMeta := tm,
                    targetMetaShared := truthy (obj_get cfg ''targetProjectResult''),
                    referenceProjectMeta := rm,
                    referenceMetaShared := truthy (obj_get cfg ''referenceProjectResult''),
                    identifier' := JStr (createIdentifier E (identifierSeed tm rm cfg))\<rparr>"
      have "apart (passedConfig s) ?s4"
        using f by (simp add: apart_def add_log_def)
      from g [OF this] have "apart (passedConfig s) (snd (prepare E cfg0 s))"
        using rm by (simp add: prepare_def Let_def add_log_def Inr tm)
      then show ?thesis by (simp add: apart_def)
    qed
  qed
qed

text \<open>
  A call without provided results, on a platform other than \<^verbatim>\<open>win32\<close>, leaves
  the configuration object that the caller has passed as it was.
\<close>

lemma passed_config_left_alone:
  assumes w: "platform E \<noteq> ''win32''"
      and t: "\<not> truthy (obj_get (defaultedConfig customConfig) ''targetProjectResult'')"
      and r: "\<not> truthy (obj_get (defaultedConfig customConfig) ''referenceProjectResult'')"
  shows "passedConfig (snd (snd (execute E f customConfig (u, st)))) = customConfig"
proof -
  let ?s0 = "add_log (DebugStarted (analyzerName st) ''execute'')
               (st\<lparr>passedConfig := customConfig\<rparr>)"
  have p0: "passedConfig ?s0 = customConfig" by (simp add: add_log_def)
  obtain rp s1 where p: "prepare E (defaultedConfig customConfig) ?s0 = (rp, s1)"
    by (metis surj_pair)
  from apart_prepare [OF w t r, of ?s0] p p0
  have 1: "passedConfig s1 = customConfig"
    and 2: "\<And>v. rp = Inr v \<Longrightarrow> apart customConfig s1"
    by simp_all
  show ?thesis
  proof (cases rp)
    case (Inl e)
    with 1 show ?thesis by (simp add: execute_def p)
  next
    case (Inr v)
    obtain res cfg where v: "v = (res, cfg)" by (cases v)
    from 2 [OF Inr] have a1: "apart customConfig s1" .
    obtain rt u2 s2 where tr: "traverse E f (u, s1) = (rt, (u2, s2))"
      by (metis surj_pair)
    with apart_traverse [OF a1, of E f u] have a2: "apart customConfig s2" by simp
    have a3: "passedConfig s3 = customConfig" if "finalize E q cfg s2 = (x, s3)" for q x s3
      using apart_finalize [OF w a2, of q cfg] that by (simp add: apart_def)
    from 1 a2 show ?thesis
      by (auto simp: execute_def p Inr v tr apart_def split: sum.split prod.split dest: a3)
  qed
qed

text \<open>
  The object that the caller has passed is not always left as it was. After a call with
  a provided target result that holds the \<^verbatim>\<open>path\<close> of the target, the result
  inside the configuration has lost this \<^verbatim>\<open>path\<close>: a second call with the same
  object reads another metadata than the first, and an identifier service that reads the
  \<^verbatim>\<open>path\<close> gives it another identifier.
\<close>

lemma same_object_second_call:
  "passedConfig (snd (snd (execute pathReadingEnv emptyTraverseEntry
       [(''targetProjectResult'', providedResult)] ((), newAnalyzer)))) =
     [(''targetProjectResult'',
       JObj [(''queryOutput'', JArr []),
             (''analyzerMeta'',
              JObj [(''targetProject'', JObj [(''name'', JStr ''target'')])])])]
   \<and> identifier' (snd (snd (execute pathReadingEnv emptyTraverseEntry
       [(''targetProjectResult'', providedResult)] ((), newAnalyzer)))) = JStr ''/tgt''
   \<and> identifier' (snd (snd (execute pathReadingEnv emptyTraverseEntry
       (passedConfig (snd (snd (execute pathReadingEnv emptyTraverseEntry
          [(''targetProjectResult'', providedResult)] ((), newAnalyzer)))))
       (snd (execute pathReadingEnv emptyTraverseEntry
          [(''targetProjectResult'', providedResult)] ((), newAnalyzer)))))) = JStr ''no-path''"
  by (simp add: lifecycle_defs example_defs)




end
